theory Spec2Isabelle
  imports Main "HOL-Library.Log_Nat"
begin

section \<open>Python numbers\<close>

text \<open>
  The game mixes Python ints (unbounded, modelled as \<open>int\<close>; \<open>//\<close> is floor division,
  which is \<open>div\<close> on \<open>int\<close>) and Python floats.  A float is an IEEE-754 binary64 number; every
  finite one is a rational, so a float value is modelled as a \<open>rat\<close> and every float operation
  is the exact operation followed by rounding to the nearest binary64 number, ties to even
  (\<open>fl\<close>).  Gradual underflow is modelled; overflow to infinity (magnitudes of \<open>2^1024\<close> and
  more) is not.
\<close>

type_synonym pyfloat = rat

datatype error = ZeroDivisionError | ValueError | TypeError

definition pow2 :: "int \<Rightarrow> rat" where
  "pow2 e = (if 0 \<le> e then 2 ^ nat e else 1 / 2 ^ nat (- e))"

text \<open>The binary exponent of a positive rational: \<open>pow2 (ilog2 a) \<le> a < pow2 (ilog2 a + 1)\<close>.\<close>

definition ilog2 :: "rat \<Rightarrow> int" where
  "ilog2 a = (if 1 \<le> a then bitlen \<lfloor>a\<rfloor> - 1 else - bitlen (\<lceil>1 / a\<rceil> - 1))"

definition round_half_even :: "rat \<Rightarrow> int" where
  "round_half_even m =
     (let f = \<lfloor>m\<rfloor>; r = m - of_int f
      in if r < 1 / 2 then f else if 1 / 2 < r then f + 1 else if even f then f else f + 1)"

definition fl :: "rat \<Rightarrow> pyfloat" where
  "fl x =
     (if x = 0 then 0
      else let a = \<bar>x\<bar>;
               u = pow2 (max (ilog2 a) (- 1022) - 52)
           in sgn x * of_int (round_half_even (a / u)) * u)"

definition float_of_int :: "int \<Rightarrow> pyfloat" where
  "float_of_int n = fl (of_int n)"

definition fadd :: "pyfloat \<Rightarrow> pyfloat \<Rightarrow> pyfloat" where
  "fadd a b = fl (a + b)"

definition fsub :: "pyfloat \<Rightarrow> pyfloat \<Rightarrow> pyfloat" where
  "fsub a b = fl (a - b)"

definition fmul :: "pyfloat \<Rightarrow> pyfloat \<Rightarrow> pyfloat" where
  "fmul a b = fl (a * b)"

text \<open>Float division; the caller raises \<open>ZeroDivisionError\<close> when the divisor is zero.\<close>

definition fdiv :: "pyfloat \<Rightarrow> pyfloat \<Rightarrow> pyfloat" where
  "fdiv a b = fl (a / b)"

text \<open>\<open>int(x)\<close> on a float truncates towards zero.\<close>

definition int_of_float :: "pyfloat \<Rightarrow> int" where
  "int_of_float x = (if 0 \<le> x then \<lfloor>x\<rfloor> else \<lceil>x\<rceil>)"

text \<open>
  A \<open>pygame.Rect\<close> holds four C ints of 32 bits, and pygame converts what it is given in
  two ways.  The constructor converts each argument as a C cast does: a Python int goes
  through a C long (\<open>TypeError\<close> when it does not fit into 64 bits), of which the low 32
  bits are kept; a float loses its fraction, and a float beyond the int range becomes
  \<open>-2^31\<close>, as the conversion instruction of x86-64 has it.  An assignment to \<open>rect.x\<close> or
  \<open>rect.y\<close> takes the value as a float, raises \<open>TypeError\<close> when it is outside the int
  range, and otherwise rounds it to the nearest integer, halves away from zero:
  \<open>floor(v + 0.5)\<close> for \<open>v \<ge> 0\<close> and \<open>ceil(v - 0.5)\<close> for \<open>v < 0\<close>, in float arithmetic.
\<close>

definition c_int :: "int \<Rightarrow> int" where
  "c_int n = (n + 2 ^ 31) mod 2 ^ 32 - 2 ^ 31"

definition rect_arg_int :: "int \<Rightarrow> error + int" where
  "rect_arg_int n =
     (if - (2 ^ 63) \<le> n \<and> n < 2 ^ 63 then Inr (c_int n) else Inl TypeError)"

definition rect_arg_float :: "pyfloat \<Rightarrow> int" where
  "rect_arg_float v =
     (let n = int_of_float v
      in if - (2 ^ 31) \<le> n \<and> n < 2 ^ 31 then n else - (2 ^ 31))"

definition pg_round :: "pyfloat \<Rightarrow> int" where
  "pg_round v = (if v < 0 then \<lceil>fsub v (1 / 2)\<rceil> else \<lfloor>fadd v (1 / 2)\<rfloor>)"

definition in_c_int :: "pyfloat \<Rightarrow> bool" where
  "in_c_int v \<longleftrightarrow> - (2 ^ 31) \<le> v \<and> v \<le> 2 ^ 31 - 1"

definition rect_assign :: "pyfloat \<Rightarrow> error + int" where
  "rect_assign v = (if in_c_int v then Inr (pg_round v) else Inl TypeError)"

text \<open>
  The module-level random generator is a piece of global state: an endless supply of raw
  draws, of which each call consumes the first.  \<open>random.randint(a, b)\<close> returns a value in
  \<open>a..b\<close> (both ends included), \<open>random.randrange(n)\<close> one in \<open>0..n-1\<close>; both raise
  \<open>ValueError\<close> on an empty range.
\<close>

type_synonym rng = "nat \<Rightarrow> nat"

definition randint :: "int \<Rightarrow> int \<Rightarrow> rng \<Rightarrow> error + (int \<times> rng)" where
  "randint a b r =
     (if b < a then Inl ValueError
      else Inr (a + int (r 0) mod (b - a + 1), \<lambda>i. r (Suc i)))"

definition randrange :: "int \<Rightarrow> rng \<Rightarrow> error + (int \<times> rng)" where
  "randrange n r =
     (if n \<le> 0 then Inl ValueError
      else Inr (int (r 0) mod n, \<lambda>i. r (Suc i)))"

section \<open>Data model\<close>

record config =
  width :: int
  height :: int
  lane_count :: int
  border_x :: int
  lane_marker_length :: int
  lane_marker_gap :: int
  fps :: int

definition GameConfig :: config where
  "GameConfig =
     \<lparr>width = 400, height = 600, lane_count = 3, border_x = 60,
      lane_marker_length = 48, lane_marker_gap = 80, fps = 60\<rparr>"

text \<open>
  \<open>pygame.Rect\<close>: left, top, width, height.  In this program the left edge given to the
  constructor is always a float and the other three arguments are Python ints.
  \<open>colliderect\<close> follows pygame: two rectangles collide when their projections overlap on
  both axes (touching edges do not count), and a rectangle of zero width or height
  collides with nothing.  The far edges are sums of C ints, which keep their low 32 bits.
\<close>

record rect =
  rect_x :: int
  rect_y :: int
  rect_w :: int
  rect_h :: int

definition Rect :: "pyfloat \<Rightarrow> int \<Rightarrow> int \<Rightarrow> int \<Rightarrow> error + rect" where
  "Rect l t w h =
     (case rect_arg_int t of
        Inl e \<Rightarrow> Inl e
      | Inr t' \<Rightarrow>
          (case rect_arg_int w of
             Inl e \<Rightarrow> Inl e
           | Inr w' \<Rightarrow>
               (case rect_arg_int h of
                  Inl e \<Rightarrow> Inl e
                | Inr h' \<Rightarrow>
                    Inr \<lparr>rect_x = rect_arg_float l, rect_y = t', rect_w = w', rect_h = h'\<rparr>)))"

definition colliderect :: "rect \<Rightarrow> rect \<Rightarrow> bool" where
  "colliderect a b =
     (if rect_w a = 0 \<or> rect_h a = 0 \<or> rect_w b = 0 \<or> rect_h b = 0 then False
      else
        let ar = c_int (rect_x a + rect_w a); ab = c_int (rect_y a + rect_h a);
            br = c_int (rect_x b + rect_w b); bb = c_int (rect_y b + rect_h b)
        in min (rect_x a) ar < max (rect_x b) br
         \<and> min (rect_y a) ab < max (rect_y b) bb
         \<and> max (rect_x a) ar > min (rect_x b) br
         \<and> max (rect_y a) ab > min (rect_y b) bb)"

text \<open>
  class \<open>Car\<close>.  In this program the centre \<open>x\<close> is always a float (it comes from
  \<open>_lane_center\<close>) and the centre \<open>y\<close> always an int.  The constructor builds the box with
  \<open>pygame.Rect(...)\<close>; \<open>update\<close> assigns to \<open>rect.x\<close> and \<open>rect.y\<close>.
\<close>

record car =
  car_x :: pyfloat
  car_y :: int
  car_width :: int
  car_height :: int
  color :: "int \<times> int \<times> int"
  rect :: rect

definition Car :: "pyfloat \<Rightarrow> int \<Rightarrow> int \<Rightarrow> int \<Rightarrow> int \<times> int \<times> int \<Rightarrow> error + car" where
  "Car x y w h c =
     (case Rect (fsub x (float_of_int (w div 2))) (y - h div 2) w h of
        Inl e \<Rightarrow> Inl e
      | Inr r \<Rightarrow>
          Inr \<lparr>car_x = x, car_y = y, car_width = w, car_height = h, color = c, rect = r\<rparr>)"

definition car_update :: "car \<Rightarrow> int \<Rightarrow> int \<Rightarrow> error + car" where
  "car_update c dx dy =
     (let x' = fadd (car_x c) (float_of_int dx);
          y' = car_y c + dy
      in case rect_assign (fsub x' (float_of_int (car_width c div 2))) of
           Inl e \<Rightarrow> Inl e
         | Inr l \<Rightarrow>
             (case rect_assign (float_of_int (y' - car_height c div 2)) of
                Inl e \<Rightarrow> Inl e
              | Inr t \<Rightarrow>
                  Inr (c\<lparr>car_x := x', car_y := y',
                         rect := (rect c)\<lparr>rect_x := l, rect_y := t\<rparr>\<rparr>)))"

text \<open>
  class \<open>RacingGame\<close>, without the rendering objects (screen, clock, fonts), and with the
  state of the global random generator as the field \<open>rng\<close>.
\<close>

record game =
  config :: config
  track_left :: int
  track_right :: int
  lane_width :: pyfloat
  car_speed :: int
  road_scroll_speed :: int
  obstacle_speed :: int
  spawn_cooldown_range :: "int \<times> int"
  player_car :: car
  obstacles :: "car list"
  lane_markers :: "(int \<times> int) list"
  score :: pyfloat
  spawn_timer :: int
  running :: bool
  game_over :: bool
  rng :: rng

definition color_player_car :: "int \<times> int \<times> int" where
  "color_player_car = (255, 0, 0)"

definition color_enemy_car :: "int \<times> int \<times> int" where
  "color_enemy_car = (0, 100, 255)"

datatype key = K_RETURN | K_ESCAPE | K_LEFT | K_RIGHT | K_OTHER nat

datatype event = QUIT | KEYDOWN key | OTHER_EVENT

section \<open>Helper methods\<close>

definition lane_center :: "game \<Rightarrow> int \<Rightarrow> pyfloat" where
  "lane_center g lane =
     fadd (float_of_int (track_left g))
          (fmul (lane_width g) (fadd (float_of_int lane) (1 / 2)))"

definition next_spawn_delay :: "game \<Rightarrow> error + (int \<times> game)" where
  "next_spawn_delay g =
     (case randint (fst (spawn_cooldown_range g)) (snd (spawn_cooldown_range g)) (rng g) of
        Inl e \<Rightarrow> Inl e
      | Inr (d, r) \<Rightarrow> Inr (d, g\<lparr>rng := r\<rparr>))"

definition check_collision :: "game \<Rightarrow> car \<Rightarrow> bool" where
  "check_collision g obstacle = colliderect (rect (player_car g)) (rect obstacle)"

definition do_game_over :: "game \<Rightarrow> game" where
  "do_game_over g = g\<lparr>game_over := True\<rparr>"

definition reset_game :: "game \<Rightarrow> error + game" where
  "reset_game g =
     (case next_spawn_delay (g\<lparr>game_over := False, obstacles := [], score := 0\<rparr>) of
        Inl e \<Rightarrow> Inl e
      | Inr (d, g1) \<Rightarrow>
          (let g2 = g1\<lparr>spawn_timer := d\<rparr>;
               x = lane_center g2 1;
               y = height (config g2) - 80;
               p = player_car g2
           in case rect_assign (fsub x (float_of_int (car_width p div 2))) of
                Inl e \<Rightarrow> Inl e
              | Inr l \<Rightarrow>
                  (case rect_assign (float_of_int (y - car_height p div 2)) of
                     Inl e \<Rightarrow> Inl e
                   | Inr t \<Rightarrow>
                       Inr (g2\<lparr>player_car :=
                              p\<lparr>car_x := x, car_y := y,
                                rect := (rect p)\<lparr>rect_x := l, rect_y := t\<rparr>\<rparr>\<rparr>))))"

section \<open>Initialisation\<close>

text \<open>
  \<open>range(start, stop, step)\<close>: ascending for a positive step, descending for a negative
  one, \<open>ValueError\<close> for step zero.
\<close>

function range_up :: "int \<Rightarrow> int \<Rightarrow> int \<Rightarrow> int list" where
  "range_up i stop step =
     (if 0 < step \<and> i < stop then i # range_up (i + step) stop step else [])"
  by pat_completeness auto
termination
  by (relation "measure (\<lambda>(i, stop, step). nat (stop - i))") auto

function range_down :: "int \<Rightarrow> int \<Rightarrow> int \<Rightarrow> int list" where
  "range_down i stop step =
     (if step < 0 \<and> stop < i then i # range_down (i + step) stop step else [])"
  by pat_completeness auto
termination
  by (relation "measure (\<lambda>(i, stop, step). nat (i - stop))") auto

declare range_up.simps [simp del] range_down.simps [simp del]

definition py_range :: "int \<Rightarrow> int \<Rightarrow> int \<Rightarrow> error + int list" where
  "py_range start stop step =
     (if step = 0 then Inl ValueError
      else if 0 < step then Inr (range_up start stop step)
      else Inr (range_down start stop step))"

fun lane_marker_rows :: "game \<Rightarrow> int list \<Rightarrow> error + (int \<times> int) list" where
  "lane_marker_rows g [] = Inr []"
| "lane_marker_rows g (lane # lanes) =
     (let x = int_of_float (fadd (float_of_int (track_left g))
                                 (fmul (float_of_int lane) (lane_width g)))
      in case py_range (- lane_marker_length (config g))
                       (height (config g) + lane_marker_length (config g))
                       (lane_marker_length (config g) + lane_marker_gap (config g)) of
           Inl e \<Rightarrow> Inl e
         | Inr ys \<Rightarrow>
             (case lane_marker_rows g lanes of
                Inl e \<Rightarrow> Inl e
              | Inr ms \<Rightarrow> Inr (map (\<lambda>y. (x, y)) ys @ ms)))"

definition init_lane_markers :: "game \<Rightarrow> error + game" where
  "init_lane_markers g =
     (case lane_marker_rows g [1 .. lane_count (config g) - 1] of
        Inl e \<Rightarrow> Inl e
      | Inr ms \<Rightarrow> Inr (g\<lparr>lane_markers := lane_markers g @ ms\<rparr>))"

definition init_game :: "config \<Rightarrow> rng \<Rightarrow> error + game" where
  "init_game cfg r =
     (if lane_count cfg = 0 then Inl ZeroDivisionError
      else
        let tl = border_x cfg;
            tr = width cfg - border_x cfg;
            lw = fl (of_int (tr - tl) / of_int (lane_count cfg));
            g0 = \<lparr>config = cfg, track_left = tl, track_right = tr, lane_width = lw,
                  car_speed = 5, road_scroll_speed = 3, obstacle_speed = 3,
                  spawn_cooldown_range = (60, 120),
                  player_car =
                    \<lparr>car_x = 0, car_y = 0, car_width = 0, car_height = 0,
                     color = color_player_car,
                     rect = \<lparr>rect_x = 0, rect_y = 0, rect_w = 0, rect_h = 0\<rparr>\<rparr>,
                  obstacles = [], lane_markers = [], score = 0, spawn_timer = 0,
                  running = True, game_over = False, rng = r\<rparr>;
            car_w = int_of_float (fmul lw (fl (3 / 5)))
        in case Car (lane_center g0 1) (height cfg - 80) car_w 40 color_player_car of
             Inl e \<Rightarrow> Inl e
           | Inr p \<Rightarrow>
               (case next_spawn_delay (g0\<lparr>player_car := p\<rparr>) of
                  Inl e \<Rightarrow> Inl e
                | Inr (d, g2) \<Rightarrow> init_lane_markers (g2\<lparr>spawn_timer := d\<rparr>)))"

section \<open>The frame\<close>

fun handle_events :: "game \<Rightarrow> event list \<Rightarrow> error + game" where
  "handle_events g [] = Inr g"
| "handle_events g (QUIT # evs) = handle_events (g\<lparr>running := False\<rparr>) evs"
| "handle_events g (KEYDOWN k # evs) =
     (if k = K_RETURN \<and> game_over g then
        (case reset_game g of Inl e \<Rightarrow> Inl e | Inr g' \<Rightarrow> handle_events g' evs)
      else if k = K_ESCAPE then handle_events (g\<lparr>running := False\<rparr>) evs
      else handle_events g evs)"
| "handle_events g (OTHER_EVENT # evs) = handle_events g evs"

definition update_car :: "game \<Rightarrow> (key \<Rightarrow> bool) \<Rightarrow> error + game" where
  "update_car g keys =
     (let dx = (if keys K_LEFT \<and> \<not> keys K_RIGHT then - car_speed g
                else if keys K_RIGHT \<and> \<not> keys K_LEFT then car_speed g
                else 0)
      in if dx \<noteq> 0 then
           (let new_x = fadd (car_x (player_car g)) (float_of_int dx);
                half = float_of_int (car_width (player_car g) div 2)
            in if of_int (track_left g) \<le> fsub new_x half
                  \<and> fadd new_x half \<le> of_int (track_right g)
               then (case car_update (player_car g) dx 0 of
                       Inl e \<Rightarrow> Inl e
                     | Inr p \<Rightarrow> Inr (g\<lparr>player_car := p\<rparr>))
               else Inr g)
         else Inr g)"

definition update_lane_markers :: "game \<Rightarrow> game" where
  "update_lane_markers g =
     g\<lparr>lane_markers :=
         map (\<lambda>(x, y).
                let new_y = y + road_scroll_speed g
                in (x, if new_y > height (config g)
                       then - lane_marker_length (config g) else new_y))
             (lane_markers g)\<rparr>"

text \<open>
  The loop of \<open>_update_obstacles\<close>.  Each obstacle is moved in place and then takes one of
  the branches of the loop body: it is queued for removal and the collision test is skipped
  (\<open>OffScreen\<close>), or it is tested and hits the player, which ends the method (\<open>Collided\<close>), or
  it is tested and misses (\<open>Passed\<close>).  The obstacles behind a hit are not visited
  (\<open>NotReached\<close>).  \<open>Car\<close> defines no equality, so \<open>list.remove\<close> deletes exactly the queued
  objects: the removal is by position.
\<close>

datatype branch = OffScreen | Collided | Passed | NotReached

fun obstacle_pass :: "game \<Rightarrow> car list \<Rightarrow> error + (car \<times> branch) list" where
  "obstacle_pass g [] = Inr []"
| "obstacle_pass g (obstacle # rest) =
     (case car_update obstacle 0 (obstacle_speed g) of
        Inl e \<Rightarrow> Inl e
      | Inr ob \<Rightarrow>
          if car_y ob > height (config g) then
            (case obstacle_pass g rest of
               Inl e \<Rightarrow> Inl e
             | Inr pass \<Rightarrow> Inr ((ob, OffScreen) # pass))
          else if check_collision g ob then
            Inr ((ob, Collided) # map (\<lambda>c. (c, NotReached)) rest)
          else
            (case obstacle_pass g rest of
               Inl e \<Rightarrow> Inl e
             | Inr pass \<Rightarrow> Inr ((ob, Passed) # pass)))"

definition update_obstacles :: "game \<Rightarrow> error + game" where
  "update_obstacles g =
     (case obstacle_pass g (obstacles g) of
        Inl e \<Rightarrow> Inl e
      | Inr pass \<Rightarrow>
          Inr (if Collided \<in> set (map snd pass)
               then do_game_over (g\<lparr>obstacles := map fst pass\<rparr>)
               else g\<lparr>obstacles := map fst (filter (\<lambda>(ob, b). b \<noteq> OffScreen) pass)\<rparr>))"

definition maybe_spawn_obstacle :: "game \<Rightarrow> error + game" where
  "maybe_spawn_obstacle g =
     (let g1 = g\<lparr>spawn_timer := spawn_timer g - 1\<rparr>
      in if spawn_timer g1 \<le> 0 then
           (case randrange (lane_count (config g1)) (rng g1) of
              Inl e \<Rightarrow> Inl e
            | Inr (lane, r) \<Rightarrow>
                (let w = int_of_float (fmul (lane_width g1) (fl (3 / 5)));
                     h = 50;
                     x = lane_center g1 lane;
                     y = - h
                 in case Car x y w h color_enemy_car of
                      Inl e \<Rightarrow> Inl e
                    | Inr obstacle \<Rightarrow>
                        (case next_spawn_delay
                                (g1\<lparr>obstacles := obstacles g1 @ [obstacle], rng := r\<rparr>) of
                           Inl e \<Rightarrow> Inl e
                         | Inr (d, g3) \<Rightarrow> Inr (g3\<lparr>spawn_timer := d\<rparr>))))
         else Inr g1)"

definition update_score :: "game \<Rightarrow> error + game" where
  "update_score g =
     (if fps (config g) = 0 then Inl ZeroDivisionError
      else Inr (g\<lparr>score := fadd (score g) (fdiv 1 (float_of_int (fps (config g))))\<rparr>))"

definition update :: "game \<Rightarrow> (key \<Rightarrow> bool) \<Rightarrow> error + game" where
  "update g keys =
     (if \<not> game_over g then
        (case update_car g keys of
           Inl e \<Rightarrow> Inl e
         | Inr g1 \<Rightarrow>
             (case update_obstacles (update_lane_markers g1) of
                Inl e \<Rightarrow> Inl e
              | Inr g3 \<Rightarrow>
                  (case maybe_spawn_obstacle g3 of
                     Inl e \<Rightarrow> Inl e
                   | Inr g4 \<Rightarrow> update_score g4)))
      else Inr g)"

text \<open>
  The main loop, driven by what the keyboard delivers in each frame: the queued events and
  the keys held down.  Drawing reads the state and changes nothing.
\<close>

fun run :: "game \<Rightarrow> (event list \<times> (key \<Rightarrow> bool)) list \<Rightarrow> error + game" where
  "run g [] = Inr g"
| "run g ((evs, keys) # frames) =
     (if running g then
        (case handle_events g evs of
           Inl e \<Rightarrow> Inl e
         | Inr g1 \<Rightarrow> (case update g1 keys of Inl e \<Rightarrow> Inl e | Inr g2 \<Rightarrow> run g2 frames))
      else Inr g)"

section \<open>Notions used in the statements\<close>

text \<open>
  A car fits a step when the left and the top edge that \<open>Car.update\<close> assigns to its box
  are within the int range, so that the step raises no \<open>TypeError\<close>.
\<close>

definition car_fits :: "car \<Rightarrow> int \<Rightarrow> int \<Rightarrow> bool" where
  "car_fits c dx dy \<longleftrightarrow>
     in_c_int (fsub (fadd (car_x c) (float_of_int dx)) (float_of_int (car_width c div 2)))
     \<and> in_c_int (float_of_int (car_y c + dy - car_height c div 2))"

text \<open>
  What one visit of the obstacle loop does to an obstacle, and when a visit ends the loop:
  \<open>moved\<close> is the obstacle after \<open>obstacle.update(0, obstacle_speed)\<close>; \<open>hits\<close> holds when
  the moved obstacle is not queued for removal and its collision test succeeds; \<open>visit\<close> is
  the outcome of a visit that does not hit.
\<close>

definition moved :: "game \<Rightarrow> car \<Rightarrow> car" where
  "moved g ob = projr (car_update ob 0 (obstacle_speed g))"

definition hits :: "game \<Rightarrow> car \<Rightarrow> bool" where
  "hits g ob \<longleftrightarrow>
     \<not> car_y (moved g ob) > height (config g) \<and> check_collision g (moved g ob)"

definition visit :: "game \<Rightarrow> car \<Rightarrow> car \<times> branch" where
  "visit g ob =
     (moved g ob, if car_y (moved g ob) > height (config g) then OffScreen else Passed)"

text \<open>The state in which \<open>update\<close> calls \<open>_update_obstacles\<close>, and the one it leaves.\<close>

definition at_obstacle_update :: "game \<Rightarrow> (key \<Rightarrow> bool) \<Rightarrow> game" where
  "at_obstacle_update g keys = update_lane_markers (projr (update_car g keys))"

definition after_obstacle_update :: "game \<Rightarrow> (key \<Rightarrow> bool) \<Rightarrow> game" where
  "after_obstacle_update g keys = projr (update_obstacles (at_obstacle_update g keys))"

text \<open>
  The width that \<open>_maybe_spawn_obstacle\<close> gives a new obstacle, and the obstacle it builds
  for a lane.
\<close>

definition spawn_width :: "game \<Rightarrow> int" where
  "spawn_width g = int_of_float (fmul (lane_width g) (fl (3 / 5)))"

definition new_obstacle :: "game \<Rightarrow> int \<Rightarrow> car" where
  "new_obstacle g lane =
     projr (Car (lane_center g lane) (- 50) (spawn_width g) 50 color_enemy_car)"

text \<open>
  The states in which a running frame raises no exception: \<open>1.0 / fps\<close> needs a non-zero
  frame rate, \<open>randrange(lane_count)\<close> a positive lane count and \<open>randint\<close> an ordered
  range; the player must fit a step to either side and every obstacle its step down, and
  the width of a new obstacle must fit into a C long.
\<close>

definition frame_ok :: "game \<Rightarrow> bool" where
  "frame_ok g \<longleftrightarrow>
     fps (config g) \<noteq> 0 \<and> 0 < lane_count (config g)
     \<and> fst (spawn_cooldown_range g) \<le> snd (spawn_cooldown_range g)
     \<and> car_fits (player_car g) (- car_speed g) 0 \<and> car_fits (player_car g) (car_speed g) 0
     \<and> list_all (\<lambda>ob. car_fits ob 0 (obstacle_speed g)) (obstacles g)
     \<and> - (2 ^ 63) \<le> spawn_width g \<and> spawn_width g < 2 ^ 63"

text \<open>
  The bounding box of a car against its centre and size.  The left edge of the box is
  \<open>x - width // 2\<close> made an integer: the constructor cuts the fraction off, an assignment
  rounds.  The other three fields are ints from the start; the box holds their low 32 bits.
\<close>

definition bbox_left :: "car \<Rightarrow> pyfloat" where
  "bbox_left c = fsub (car_x c) (float_of_int (car_width c div 2))"

definition bbox_derived :: "car \<Rightarrow> bool" where
  "bbox_derived c \<longleftrightarrow>
     (rect_x (rect c) = rect_arg_float (bbox_left c)
      \<or> in_c_int (bbox_left c) \<and> rect_x (rect c) = pg_round (bbox_left c))
     \<and> rect_y (rect c) = c_int (car_y c - car_height c div 2)
     \<and> rect_w (rect c) = c_int (car_width c)
     \<and> rect_h (rect c) = c_int (car_height c)"

definition cars_derived :: "game \<Rightarrow> bool" where
  "cars_derived g \<longleftrightarrow> bbox_derived (player_car g) \<and> list_all bbox_derived (obstacles g)"

text \<open>The sizes and the top edge of a car are within the int range.\<close>

definition car_in_range :: "car \<Rightarrow> bool" where
  "car_in_range c \<longleftrightarrow>
     in_c_int (bbox_left c)
     \<and> - (2 ^ 31) \<le> car_y c - car_height c div 2 \<and> car_y c - car_height c div 2 < 2 ^ 31
     \<and> - (2 ^ 31) \<le> car_width c \<and> car_width c < 2 ^ 31
     \<and> - (2 ^ 31) \<le> car_height c \<and> car_height c < 2 ^ 31"

definition rect_right :: "rect \<Rightarrow> int" where
  "rect_right r = rect_x r + rect_w r"

definition rect_bottom :: "rect \<Rightarrow> int" where
  "rect_bottom r = rect_y r + rect_h r"

definition player_within_track :: "game \<Rightarrow> bool" where
  "player_within_track g \<longleftrightarrow>
     track_left g \<le> rect_x (rect (player_car g))
     \<and> rect_right (rect (player_car g)) \<le> track_right g"


text \<open>
  The states in which \<open>_reset_game\<close> raises no exception: the cooldown range is ordered and
  the edges that it assigns to the player's box are within the int range.
\<close>

definition reset_fits :: "game \<Rightarrow> bool" where
  "reset_fits g \<longleftrightarrow>
     fst (spawn_cooldown_range g) \<le> snd (spawn_cooldown_range g)
     \<and> in_c_int (fsub (lane_center g 1) (float_of_int (car_width (player_car g) div 2)))
     \<and> in_c_int (float_of_int (height (config g) - 80 - car_height (player_car g) div 2))"

text \<open>A frame without the restart key.\<close>

definition no_restart :: "event list \<times> (key \<Rightarrow> bool) \<Rightarrow> bool" where
  "no_restart frame \<longleftrightarrow> KEYDOWN K_RETURN \<notin> set (fst frame)"

definition first_hit :: "game \<Rightarrow> car list \<Rightarrow> nat" where
  "first_hit g obs = length (takeWhile (\<lambda>ob. \<not> hits g ob) obs)"

text \<open>What the spawner draws: the lane from the first draw, the new countdown from the second.\<close>

definition spawn_lane :: "game \<Rightarrow> int" where
  "spawn_lane g = int (rng g 0) mod lane_count (config g)"

definition spawn_delay :: "game \<Rightarrow> int" where
  "spawn_delay g =
     fst (spawn_cooldown_range g)
     + int (rng g 1) mod (snd (spawn_cooldown_range g) - fst (spawn_cooldown_range g) + 1)"

text \<open>The countdown that one call of \<open>_next_spawn_delay\<close> draws in a state.\<close>

definition first_delay :: "game \<Rightarrow> int" where
  "first_delay g =
     fst (spawn_cooldown_range g)
     + int (rng g 0) mod (snd (spawn_cooldown_range g) - fst (spawn_cooldown_range g) + 1)"

section \<open>Example states\<close>

definition no_keys :: "key \<Rightarrow> bool" where
  "no_keys k = False"

definition hold_right :: "key \<Rightarrow> bool" where
  "hold_right k = (k = K_RIGHT)"

text \<open>
  A random generator whose raw draws are all 28: every obstacle is spawned in lane 1
  (\<open>28 mod 3\<close>) and every countdown is 88 frames (\<open>60 + 28 mod 61\<close>).
\<close>

definition steady_rng :: rng where
  "steady_rng i = 28"

text \<open>The game that \<open>RacingGame()\<close> builds with this generator.\<close>

definition start_game :: game where
  "start_game =
     \<lparr>config = GameConfig, track_left = 60, track_right = 340,
      lane_width = 6567749456581973 / 70368744177664,
      car_speed = 5, road_scroll_speed = 3, obstacle_speed = 3,
      spawn_cooldown_range = (60, 120),
      player_car =
        \<lparr>car_x = 200, car_y = 520, car_width = 55, car_height = 40, color = (255, 0, 0),
         rect = \<lparr>rect_x = 173, rect_y = 500, rect_w = 55, rect_h = 40\<rparr>\<rparr>,
      obstacles = [],
      lane_markers =
        [(153, - 48), (153, 80), (153, 208), (153, 336), (153, 464), (153, 592),
         (246, - 48), (246, 80), (246, 208), (246, 336), (246, 464), (246, 592)],
      score = 0, spawn_timer = 88, running = True, game_over = False, rng = steady_rng\<rparr>"

text \<open>An obstacle of the default game in the middle lane, with its centre at height \<open>y\<close>.\<close>

definition middle_obstacle :: "int \<Rightarrow> car" where
  "middle_obstacle y =
     \<lparr>car_x = 200, car_y = y, car_width = 55, car_height = 50, color = (0, 100, 255),
      rect = \<lparr>rect_x = 173, rect_y = y - 25, rect_w = 55, rect_h = 50\<rparr>\<rparr>"

text \<open>
  \<open>start_game\<close> after 263 frames without input.  The obstacles spawned in frames 88 and
  176 are on their way down the player's lane; the first one ends 3 pixels above the
  player's top edge, and the spawn timer expires in the next frame.
\<close>

definition crash_game :: game where
  "crash_game =
     start_game
       \<lparr>obstacles := [middle_obstacle 475, middle_obstacle 211],
        lane_markers :=
          [(153, 90), (153, 219), (153, 348), (153, 474), (153, - 48), (153, 81),
           (246, 90), (246, 219), (246, 348), (246, 474), (246, - 48), (246, 81)],
        score := 4935194591660157 / 1125899906842624, spawn_timer := 1\<rparr>"

text \<open>
  A hand-made obstacle list: the first obstacle leaves the screen in the next frame, the
  second hits the player in it, the third is behind them.
\<close>

definition pileup_game :: game where
  "pileup_game =
     start_game\<lparr>obstacles := [middle_obstacle 598, middle_obstacle 475, middle_obstacle 100],
                 score := 4, spawn_timer := 30\<rparr>"

text \<open>
  \<open>start_game\<close> after 304 frames with the right key held: the player has dodged to the
  right edge of the track, and the centre of the first obstacle crosses the bottom of the
  screen in the next frame.
\<close>

definition exit_game :: game where
  "exit_game =
     start_game
       \<lparr>player_car :=
          \<lparr>car_x = 310, car_y = 520, car_width = 55, car_height = 40, color = (255, 0, 0),
           rect = \<lparr>rect_x = 283, rect_y = 500, rect_w = 55, rect_h = 40\<rparr>\<rparr>,
        obstacles := [middle_obstacle 598, middle_obstacle 334, middle_obstacle 70],
        lane_markers :=
          [(153, 213), (153, 342), (153, 471), (153, 597), (153, 75), (153, 204),
           (246, 213), (246, 342), (246, 471), (246, 597), (246, 75), (246, 204)],
        score := 2852279764001307 / 562949953421312, spawn_timer := 48\<rparr>"

text \<open>
  \<open>RacingGame(GameConfig(width=406))\<close>, with the same generator, after 22 frames with the
  right key held: the car is 57 wide and its centre has gone from 203 to 313.
\<close>

definition wide_config :: config where
  "wide_config = GameConfig\<lparr>width := 406\<rparr>"

definition edge_game :: game where
  "edge_game =
     \<lparr>config = wide_config, track_left = 60, track_right = 346,
      lane_width = 6708486944937301 / 70368744177664,
      car_speed = 5, road_scroll_speed = 3, obstacle_speed = 3,
      spawn_cooldown_range = (60, 120),
      player_car =
        \<lparr>car_x = 313, car_y = 520, car_width = 57, car_height = 40, color = (255, 0, 0),
         rect = \<lparr>rect_x = 285, rect_y = 500, rect_w = 57, rect_h = 40\<rparr>\<rparr>,
      obstacles = [],
      lane_markers =
        [(155, 18), (155, 146), (155, 274), (155, 402), (155, 530), (155, 9),
         (250, 18), (250, 146), (250, 274), (250, 402), (250, 530), (250, 9)],
      score = 6605279453476727 / 18014398509481984, spawn_timer = 66,
      running = True, game_over = False, rng = steady_rng\<rparr>"

text \<open>
  \<open>RacingGame(GameConfig(width=412))\<close> with a generator whose raw draws are all 27 - every
  obstacle is spawned in lane 0 and every countdown is 87 frames - after 8 frames with the
  left key held and 254 frames without input.  The cars are 58 wide; the centre of lane 0
  is the float \<open>108.66666666666667\<close>, so the left edge of an obstacle is \<open>79.66...\<close>: 79 in
  the box that the constructor makes, 80 after the first step down.  The player's box
  begins at 137.
\<close>

definition left_rng :: rng where
  "left_rng i = 27"

definition graze_config :: config where
  "graze_config = GameConfig\<lparr>width := 412\<rparr>"

definition left_obstacle :: "int \<Rightarrow> car" where
  "left_obstacle y =
     \<lparr>car_x = 3823368433653077 / 35184372088832, car_y = y, car_width = 58,
      car_height = 50, color = (0, 100, 255),
      rect = \<lparr>rect_x = 80, rect_y = y - 25, rect_w = 58, rect_h = 50\<rparr>\<rparr>"

definition graze_game :: game where
  "graze_game =
     \<lparr>config = graze_config, track_left = 60, track_right = 352,
      lane_width = 6849224433292629 / 70368744177664,
      car_speed = 5, road_scroll_speed = 3, obstacle_speed = 3,
      spawn_cooldown_range = (60, 120),
      player_car =
        \<lparr>car_x = 166, car_y = 520, car_width = 58, car_height = 40, color = (255, 0, 0),
         rect = \<lparr>rect_x = 137, rect_y = 500, rect_w = 58, rect_h = 40\<rparr>\<rparr>,
      obstacles = [left_obstacle 475, left_obstacle 214, left_obstacle (- 47)],
      lane_markers =
        [(157, 87), (157, 216), (157, 345), (157, 471), (157, 600), (157, 78),
         (254, 87), (254, 216), (254, 345), (254, 471), (254, 600), (254, 78)],
      score = 1229107398303195 / 281474976710656, spawn_timer = 86,
      running = True, game_over = False, rng = left_rng\<rparr>"

text \<open>
  \<open>RacingGame(GameConfig(width=401))\<close>, with every raw draw 28, after its first 264 frames
  without input: the first obstacle has just hit the player.  The centre of the middle
  lane is \<open>200.5\<close> and the cars are 56 wide, so the left edge of a car in that lane is
  \<open>172.5\<close>: 172 in a box that the constructor made (the player's, and the obstacle spawned
  in this frame), 173 in the box of an obstacle that has moved.
\<close>

definition half_config :: config where
  "half_config = GameConfig\<lparr>width := 401\<rparr>"

definition half_obstacle :: "int \<Rightarrow> int \<Rightarrow> car" where
  "half_obstacle l y =
     \<lparr>car_x = 401 / 2, car_y = y, car_width = 56, car_height = 50, color = (0, 100, 255),
      rect = \<lparr>rect_x = l, rect_y = y - 25, rect_w = 56, rect_h = 50\<rparr>\<rparr>"

definition half_crashed_game :: game where
  "half_crashed_game =
     \<lparr>config = half_config, track_left = 60, track_right = 341,
      lane_width = 6591205704641195 / 70368744177664,
      car_speed = 5, road_scroll_speed = 3, obstacle_speed = 3,
      spawn_cooldown_range = (60, 120),
      player_car =
        \<lparr>car_x = 401 / 2, car_y = 520, car_width = 56, car_height = 40, color = (255, 0, 0),
         rect = \<lparr>rect_x = 172, rect_y = 500, rect_w = 56, rect_h = 40\<rparr>\<rparr>,
      obstacles = [half_obstacle 173 478, half_obstacle 173 211, half_obstacle 172 (- 50)],
      lane_markers =
        [(153, 93), (153, 222), (153, 351), (153, 477), (153, - 45), (153, 84),
         (247, 93), (247, 222), (247, 351), (247, 477), (247, - 45), (247, 84)],
      score = 2476979795053767 / 562949953421312, spawn_timer = 88,
      running = True, game_over = True, rng = steady_rng\<rparr>"

definition gap_config :: config where
  "gap_config = GameConfig\<lparr>lane_marker_gap := 82\<rparr>"

section \<open>Rounding\<close>

text \<open>
  Integers below \<open>2^53\<close> are floats, and rounding changes a number of the normal range by
  at most the fraction \<open>2^-53\<close> of it.
\<close>

lemma pow2_power_int: "pow2 e = power_int 2 e"
  by (simp add: pow2_def power_int_def power_one_over inverse_eq_divide)

lemma pow2_pos: "0 < pow2 e"
  by (simp add: pow2_def)

lemma pow2_add: "pow2 (a + b) = pow2 a * pow2 b"
  by (simp add: pow2_power_int power_int_add)

lemma pow2_nat: "0 \<le> e \<Longrightarrow> pow2 e = 2 ^ nat e"
  by (simp add: pow2_def)

lemma round_half_even_of_int: "round_half_even (of_int k) = k"
  by (simp add: round_half_even_def)

lemma round_half_even_error: "\<bar>of_int (round_half_even m) - m\<bar> \<le> 1 / 2"
proof -
  have "of_int \<lfloor>m\<rfloor> \<le> m" and "m < of_int \<lfloor>m\<rfloor> + 1" by linarith+
  then show ?thesis
    by (auto simp: round_half_even_def Let_def abs_le_iff)
qed

lemma bitlen_le: 
  assumes "0 < n" and "n < 2 ^ k"
  shows "bitlen n \<le> int k"
proof -
  from bitlen_bounds[OF assms(1)] have "(2::int) ^ nat (bitlen n - 1) \<le> n" by simp
  with assms(2) have "(2::int) ^ nat (bitlen n - 1) < 2 ^ k" by linarith
  then have "nat (bitlen n - 1) < k" by simp
  then show ?thesis by linarith
qed

lemma bitlen_pos: "0 < n \<Longrightarrow> 1 \<le> bitlen n"
  using bitlen_eq_zero_iff[of n] bitlen_nonneg[of n] by linarith

lemma fl_of_int_pos:
  assumes "0 < n" and "n < 2 ^ 53"
  shows "fl (of_int n) = of_int n"
proof -
  define e where "e = bitlen n - 1"
  have e: "0 \<le> e" "e \<le> 52"
    using bitlen_pos[OF assms(1)] bitlen_le[OF assms] by (simp_all add: e_def)
  have il: "ilog2 (of_int n) = e"
    using assms(1) by (simp add: ilog2_def e_def)
  define k where "k = nat (52 - e)"
  have u: "pow2 (max e (- 1022) - 52) = 1 / 2 ^ k"
    using e by (auto simp: pow2_def k_def max_def)
  have "(of_int n :: rat) * 2 ^ k = of_int (n * 2 ^ k)"
    by simp
  then have r: "round_half_even (of_int n * 2 ^ k) = n * 2 ^ k"
    by (simp only: round_half_even_of_int)
  show ?thesis
    using assms(1) by (simp add: fl_def Let_def il u r)
qed

lemma fl_neg: "fl (- x) = - fl x"
  by (simp add: fl_def Let_def)

lemma fl_of_int: "\<bar>n\<bar> < 2 ^ 53 \<Longrightarrow> fl (of_int n) = of_int n"
proof -
  assume a: "\<bar>n\<bar> < 2 ^ 53"
  consider "n = 0" | "0 < n" | "n < 0" by linarith
  then show ?thesis
  proof cases
    case 1 then show ?thesis by (simp add: fl_def)
  next
    case 2 with a show ?thesis by (simp add: fl_of_int_pos)
  next
    case 3
    with a have "fl (of_int (- n)) = of_int (- n)" by (intro fl_of_int_pos) auto
    then show ?thesis using fl_neg[of "of_int n"] by simp
  qed
qed

lemma ilog2_bounds:
  assumes "0 < a"
  shows "pow2 (ilog2 a) \<le> a \<and> a < pow2 (ilog2 a + 1)"
proof (cases "1 \<le> a")
  case True
  define n where "n = \<lfloor>a\<rfloor>"
  have n: "1 \<le> n" "of_int n \<le> a" "a < of_int n + 1"
    using True by (simp_all add: n_def) linarith+
  from n(1) have b: "(2::int) ^ nat (bitlen n - 1) \<le> n" "n < 2 ^ nat (bitlen n)"
    using bitlen_bounds[of n] by simp_all
  have bp: "1 \<le> bitlen n" using n(1) by (simp add: bitlen_pos)
  have il: "ilog2 a = bitlen n - 1" using True by (simp add: ilog2_def n_def)
  have "pow2 (bitlen n - 1) = of_int (2 ^ nat (bitlen n - 1))"
    using bp by (simp add: pow2_def)
  also have "\<dots> \<le> of_int n" using b(1) by (simp only: of_int_le_iff)
  finally have lo: "pow2 (ilog2 a) \<le> a" using n(2) il by simp
  have "of_int n + 1 \<le> (of_int (2 ^ nat (bitlen n)) :: rat)"
    using b(2) by (metis of_int_1 of_int_add of_int_le_iff zless_imp_add1_zle)
  also have "\<dots> = pow2 (bitlen n)" using bp by (simp add: pow2_def)
  finally have hi: "a < pow2 (ilog2 a + 1)" using n(3) il by simp
  from lo hi show ?thesis ..
next
  case False
  define c where "c = \<lceil>1 / a\<rceil>"
  define m where "m = c - 1"
  have ia: "1 < 1 / a" using False assms by simp
  have c: "1 / a \<le> of_int c" "of_int c - 1 < 1 / a"
    unfolding c_def by linarith+
  have m: "1 \<le> m" using ia c(1) by (simp add: m_def)
  from m have b: "(2::int) ^ nat (bitlen m - 1) \<le> m" "m < 2 ^ nat (bitlen m)"
    using bitlen_bounds[of m] by simp_all
  have bp: "1 \<le> bitlen m" using m by (simp add: bitlen_pos)
  have il: "ilog2 a = - bitlen m" using False by (simp add: ilog2_def c_def m_def)
  have "1 / a \<le> of_int (m + 1)" using c(1) by (simp add: m_def)
  also have "\<dots> \<le> (of_int (2 ^ nat (bitlen m)) :: rat)"
    using b(2) by (simp only: of_int_le_iff)
  finally have "1 / a \<le> 2 ^ nat (bitlen m)" by simp
  then have "1 / 2 ^ nat (bitlen m) \<le> a"
    using assms by (simp add: field_simps)
  moreover have "pow2 (- bitlen m) = 1 / 2 ^ nat (bitlen m)"
    using bp by (simp add: pow2_def)
  ultimately have lo: "pow2 (ilog2 a) \<le> a" using il by simp
  have "(of_int (2 ^ nat (bitlen m - 1)) :: rat) \<le> of_int m"
    using b(1) by (simp only: of_int_le_iff)
  also have "\<dots> < 1 / a" using c(2) by (simp add: m_def)
  finally have "2 ^ nat (bitlen m - 1) < 1 / a" by simp
  then have "a < 1 / 2 ^ nat (bitlen m - 1)"
    using assms by (simp add: field_simps)
  moreover have "pow2 (- bitlen m + 1) = 1 / 2 ^ nat (bitlen m - 1)"
    using bp by (auto simp: pow2_def)
  ultimately have hi: "a < pow2 (ilog2 a + 1)" using il by simp
  from lo hi show ?thesis ..
qed


lemma fl_error:
  assumes "pow2 (- 1022) \<le> x"
  shows "\<bar>fl x - x\<bar> \<le> x / 2 ^ 53"
proof -
  have x: "0 < x" using assms pow2_pos[of "- 1022"] by linarith
  define e where "e = ilog2 x"
  have b: "pow2 e \<le> x" "x < pow2 (e + 1)"
    using ilog2_bounds[OF x] by (simp_all add: e_def)
  have lt: "pow2 (- 1022) < pow2 (e + 1)" using assms b(2) by linarith
  have "- 1022 < e + 1"
  proof (rule ccontr)
    assume "\<not> - 1022 < e + 1"
    then have "e + 1 \<le> - 1022" by simp
    then have "pow2 (e + 1) \<le> pow2 (- 1022)"
      unfolding pow2_power_int by (intro power_int_increasing) simp_all
    with lt show False by linarith
  qed
  then have m: "max e (- 1022) = e" by simp
  define u where "u = pow2 (e - 52)"
  have u: "0 < u" by (simp add: u_def pow2_pos)
  have "pow2 e = pow2 (e - 52) * pow2 52" using pow2_add[of "e - 52" 52] by simp
  then have pe: "pow2 e = u * 2 ^ 52" by (simp add: u_def pow2_def)
  have f: "fl x = of_int (round_half_even (x / u)) * u"
    using x by (simp add: fl_def Let_def e_def[symmetric] m u_def)
  have "fl x - x = (of_int (round_half_even (x / u)) - x / u) * u"
    using u by (simp add: f left_diff_distrib)
  then have "\<bar>fl x - x\<bar> = \<bar>of_int (round_half_even (x / u)) - x / u\<bar> * u"
    using u by (simp add: abs_mult)
  also have "\<dots> \<le> 1 / 2 * u"
    using u round_half_even_error[of "x / u"] by (intro mult_right_mono) simp_all
  also have "\<dots> \<le> x / 2 ^ 53"
    using b(1) by (simp add: pe)
  finally show ?thesis .
qed

lemma fl_zero: "fl 0 = 0"
  by (simp add: fl_def)

lemma fl_one: "fl 1 = 1"
  using fl_of_int [of 1] by simp

lemma fl_numeral: "numeral k < (2 ^ 53 :: int) \<Longrightarrow> fl (numeral k) = numeral k"
  using fl_of_int [of "numeral k"] by simp

lemma fl_neg_numeral: "numeral k < (2 ^ 53 :: int) \<Longrightarrow> fl (- numeral k) = - numeral k"
  using fl_of_int [of "- numeral k"] by simp

lemma float_of_int_exact: "\<bar>n\<bar> < 2 ^ 53 \<Longrightarrow> float_of_int n = of_int n"
  unfolding float_of_int_def by (rule fl_of_int)


section \<open>The conversions of pygame.Rect\<close>

text \<open>
  Within the int range an assignment changes a value by less than 1 and leaves a whole
  number as it is; the constructor does the same there.
\<close>

lemma c_int_id: "- (2 ^ 31) \<le> n \<Longrightarrow> n < 2 ^ 31 \<Longrightarrow> c_int n = n"
  by (simp add: c_int_def)

lemma c_int_range: "- (2 ^ 31) \<le> c_int n \<and> c_int n < 2 ^ 31"
proof -
  have "0 \<le> (n + 2147483648) mod (4294967296 :: int)"
    and "(n + 2147483648) mod (4294967296 :: int) < 4294967296"
    by simp_all
  then show ?thesis by (simp add: c_int_def)
qed

lemma rect_arg_int_id:
  "- (2 ^ 31) \<le> n \<Longrightarrow> n < 2 ^ 31 \<Longrightarrow> rect_arg_int n = Inr n"
  by (simp add: rect_arg_int_def c_int_id)

lemma rect_arg_int_cases:
  "rect_arg_int n = Inr m \<Longrightarrow> m = c_int n"
  by (simp add: rect_arg_int_def split: if_splits)

lemma pow2_tiny_half: "pow2 (- 1022) \<le> 1 / 2"
  by (simp add: pow2_def)

lemma round_up_bounds:
  fixes v :: rat
  assumes "0 \<le> v" and "v \<le> 2 ^ 31"
  shows "\<bar>of_int \<lfloor>fadd v (1 / 2)\<rfloor> - v\<bar> < 1"
proof -
  define z where "z = v + 1 / 2"
  define f where "f = fl z"
  define p where "p = \<lfloor>f\<rfloor>"
  define d where "d = z / 2 ^ 53"
  have z: "1 / 2 \<le> z" "z \<le> 2147483649" using assms by (simp_all add: z_def)
  have "pow2 (- 1022) \<le> z" using pow2_tiny_half z(1) by linarith
  then have "\<bar>f - z\<bar> \<le> d" unfolding f_def d_def by (rule fl_error)
  then have "f - z \<le> d \<and> - (f - z) \<le> d" by (simp only: abs_le_iff)
  then have e: "f - z \<le> d" "z - f \<le> d" by simp_all
  have q: "d < 1 / 4" using z(2) by (simp add: d_def)
  have p: "of_int p \<le> f" "f < of_int p + 1" unfolding p_def by linarith+
  have zv: "z = v + 1 / 2" by (simp add: z_def)
  from e q p zv have "of_int p - v < 1" and "- (of_int p - v) < 1" by linarith+
  then have "\<bar>of_int p - v\<bar> < 1" by (simp only: abs_less_iff simp_thms)
  then show ?thesis by (simp add: p_def f_def z_def fadd_def)
qed

lemma pg_round_neg: "v < 0 \<Longrightarrow> pg_round v = - pg_round (- v)"
proof -
  assume v: "v < 0"
  have "fsub v (1 / 2) = - fadd (- v) (1 / 2)"
    using fl_neg [of "- v + 1 / 2"] by (simp add: fsub_def fadd_def)
  then have "\<lceil>fsub v (1 / 2)\<rceil> = - \<lfloor>fadd (- v) (1 / 2)\<rfloor>"
    by (simp add: ceiling_def)
  with v show ?thesis by (simp add: pg_round_def)
qed

lemma pg_round_bounds:
  assumes "\<bar>v\<bar> \<le> 2 ^ 31"
  shows "\<bar>of_int (pg_round v) - v\<bar> < 1"
proof (cases "v < 0")
  case False
  with assms have "0 \<le> v" "v \<le> 2 ^ 31" by simp_all
  from round_up_bounds [OF this] False show ?thesis by (simp add: pg_round_def)
next
  case True
  with assms have "0 \<le> - v" "- v \<le> 2 ^ 31" by simp_all
  from round_up_bounds [OF this] have "\<bar>of_int \<lfloor>fadd (- v) (1 / 2)\<rfloor> + v\<bar> < 1" by simp
  moreover have "pg_round (- v) = \<lfloor>fadd (- v) (1 / 2)\<rfloor>"
    using True by (simp add: pg_round_def)
  ultimately have "\<bar>of_int (pg_round (- v)) + v\<bar> < 1" by simp
  then have "\<bar>- (of_int (pg_round (- v)) + v)\<bar> < 1" by (simp only: abs_minus)
  then show ?thesis by (simp add: pg_round_neg [OF True])
qed

lemma pg_round_of_int:
  assumes "\<bar>n\<bar> \<le> 2 ^ 31"
  shows "pg_round (of_int n) = n"
proof -
  have "(of_int \<bar>n\<bar> :: rat) \<le> of_int (2 ^ 31)"
    using assms by (simp only: of_int_le_iff)
  then have "\<bar>(of_int n :: rat)\<bar> \<le> 2 ^ 31" by simp
  from pg_round_bounds [OF this]
  have "(of_int \<bar>pg_round (of_int n) - n\<bar> :: rat) < of_int 1" by simp
  then have "\<bar>pg_round (of_int n) - n\<bar> < 1" by (simp only: of_int_less_iff)
  then show ?thesis by simp
qed

lemma pg_round_zero: "pg_round 0 = 0"
  using pg_round_of_int [of 0] by simp

lemma pg_round_numeral:
  "numeral k \<le> (2 ^ 31 :: int) \<Longrightarrow> pg_round (numeral k) = numeral k"
  using pg_round_of_int [of "numeral k"] by simp

lemma pg_round_neg_numeral:
  "numeral k \<le> (2 ^ 31 :: int) \<Longrightarrow> pg_round (- numeral k) = - numeral k"
  using pg_round_of_int [of "- numeral k"] by simp

lemma in_c_int_abs: "in_c_int v \<Longrightarrow> \<bar>v\<bar> \<le> 2 ^ 31"
  by (simp add: in_c_int_def abs_le_iff)

lemma rect_assign_bounds:
  assumes "rect_assign v = Inr n"
  shows "in_c_int v" and "n = pg_round v" and "\<bar>of_int n - v\<bar> < 1"
proof -
  from assms show i: "in_c_int v" and n: "n = pg_round v"
    by (simp_all add: rect_assign_def split: if_splits)
  from pg_round_bounds [OF in_c_int_abs [OF i]] n show "\<bar>of_int n - v\<bar> < 1" by simp
qed

lemma int_of_float_bounds: "\<bar>of_int (int_of_float v) - v\<bar> < 1"
proof (cases "0 \<le> v")
  case True
  have "of_int \<lfloor>v\<rfloor> \<le> v" "v < of_int \<lfloor>v\<rfloor> + 1" by linarith+
  then have "of_int \<lfloor>v\<rfloor> - v < 1" and "- (of_int \<lfloor>v\<rfloor> - v) < 1" by linarith+
  then have "\<bar>of_int \<lfloor>v\<rfloor> - v\<bar> < 1" by (simp only: abs_less_iff simp_thms)
  with True show ?thesis by (simp add: int_of_float_def)
next
  case False
  have "v \<le> of_int \<lceil>v\<rceil>" "of_int \<lceil>v\<rceil> < v + 1" by linarith+
  then have "of_int \<lceil>v\<rceil> - v < 1" and "- (of_int \<lceil>v\<rceil> - v) < 1" by linarith+
  then have "\<bar>of_int \<lceil>v\<rceil> - v\<bar> < 1" by (simp only: abs_less_iff simp_thms)
  with False show ?thesis by (simp add: int_of_float_def)
qed

lemma int_of_float_of_int: "int_of_float (of_int n) = n"
  by (simp add: int_of_float_def)

lemma rect_arg_float_in_range:
  assumes "in_c_int v"
  shows "rect_arg_float v = int_of_float v"
proof -
  from assms have v: "- (2 ^ 31) \<le> v" "v \<le> 2 ^ 31 - 1" by (simp_all add: in_c_int_def)
  have "of_int (- (2 ^ 31)) \<le> v" using v(1) by simp
  then have lo: "- (2 ^ 31) \<le> \<lceil>v\<rceil>" "- (2 ^ 31) \<le> \<lfloor>v\<rfloor>"
    by (simp_all only: le_floor_iff) linarith
  have "v < of_int (2 ^ 31)" using v(2) by simp
  then have hi: "\<lfloor>v\<rfloor> < 2 ^ 31" by (simp only: floor_less_iff)
  have "v \<le> of_int (2 ^ 31 - 1)" using v(2) by simp
  then have "\<lceil>v\<rceil> \<le> 2 ^ 31 - 1" by (simp only: ceiling_le_iff)
  then have hi': "\<lceil>v\<rceil> < 2 ^ 31" by simp
  from lo hi hi' show ?thesis
    by (simp add: rect_arg_float_def int_of_float_def Let_def)
qed

text \<open>An int is assigned unchanged when it is within the int range, and not at all otherwise.\<close>

lemma in_c_int_float_of_int:
  "in_c_int (float_of_int t) \<longleftrightarrow> - (2 ^ 31) \<le> t \<and> t \<le> 2 ^ 31 - 1"
proof (cases "\<bar>t\<bar> < 2 ^ 53")
  case True
  have "(of_int (- (2 ^ 31)) \<le> (of_int t :: rat)) = (- (2 ^ 31) \<le> t)"
    by (simp only: of_int_le_iff)
  then have lo: "(- (2 ^ 31) \<le> (of_int t :: rat)) = (- (2 ^ 31) \<le> t)" by simp
  have "((of_int t :: rat) \<le> of_int (2 ^ 31 - 1)) = (t \<le> 2 ^ 31 - 1)"
    by (simp only: of_int_le_iff)
  then have hi: "((of_int t :: rat) \<le> 2 ^ 31 - 1) = (t \<le> 2 ^ 31 - 1)" by simp
  show ?thesis
    by (simp only: in_c_int_def float_of_int_exact [OF True] lo hi)
next
  case False
  have big: "2 ^ 31 < fl x" if "2 ^ 53 \<le> x" for x :: rat
  proof -
    have "(1 / 2 :: rat) \<le> 2 ^ 53" by simp
    with that pow2_tiny_half have "pow2 (- 1022) \<le> x" by linarith
    then have "\<bar>fl x - x\<bar> \<le> x / 2 ^ 53" by (rule fl_error)
    then have "- (fl x - x) \<le> x / 2 ^ 53" by (simp only: abs_le_iff)
    then have "x - fl x \<le> x / 9007199254740992" by simp
    moreover have "9007199254740992 \<le> x" using that by simp
    ultimately show ?thesis by simp
  qed
  from False consider "2 ^ 53 \<le> t" | "t \<le> - (2 ^ 53)" by linarith
  then show ?thesis
  proof cases
    case 1
    then have "(of_int (2 ^ 53) :: rat) \<le> of_int t" by (simp only: of_int_le_iff)
    then have "(2 ^ 53 :: rat) \<le> of_int t" by simp
    from big [OF this] 1 show ?thesis by (simp add: in_c_int_def float_of_int_def)
  next
    case 2
    then have "2 ^ 53 \<le> - t" by simp
    then have "(of_int (2 ^ 53) :: rat) \<le> of_int (- t)" by (simp only: of_int_le_iff)
    then have "(2 ^ 53 :: rat) \<le> of_int (- t)" by simp
    from big [OF this] have "fl (of_int t) < - (2 ^ 31)"
      using fl_neg [of "of_int t"] by simp
    with 2 show ?thesis by (simp add: in_c_int_def float_of_int_def)
  qed
qed

lemma rect_assign_int:
  "rect_assign (float_of_int t) =
     (if - (2 ^ 31) \<le> t \<and> t \<le> 2 ^ 31 - 1 then Inr t else Inl TypeError)"
proof (cases "- (2 ^ 31) \<le> t \<and> t \<le> 2 ^ 31 - 1")
  case True
  then have "- 2147483648 \<le> t" and "t \<le> 2147483647" by simp_all
  then have "\<bar>t\<bar> \<le> 2147483648" and "\<bar>t\<bar> < 9007199254740992" by linarith+
  then have a: "\<bar>t\<bar> \<le> 2 ^ 31" "\<bar>t\<bar> < 2 ^ 53" by simp_all
  from True have i: "in_c_int (float_of_int t)" by (simp only: in_c_int_float_of_int simp_thms)
  have "pg_round (float_of_int t) = t"
    by (simp only: float_of_int_exact [OF a(2)] pg_round_of_int [OF a(1)])
  with i have "rect_assign (float_of_int t) = Inr t"
    by (simp only: rect_assign_def if_True)
  with True show ?thesis by (simp only: simp_thms if_True)
next
  case False
  then have "\<not> in_c_int (float_of_int t)" by (simp only: in_c_int_float_of_int simp_thms)
  then have "rect_assign (float_of_int t) = Inl TypeError"
    by (simp only: rect_assign_def if_False)
  with False show ?thesis by (simp only: if_False)
qed

text \<open>Two conversions of the same value: \<open>172.5\<close> is cut to 172 and rounded to 173.\<close>

lemma conversions_differ:
  "rect_arg_float (345 / 2) = 172" "rect_assign (345 / 2) = Inr 173"
  by code_simp+

section \<open>The steps of a car\<close>

lemma car_update_fits:
  assumes "car_fits c dx dy"
  shows "car_update c dx dy =
     Inr (c\<lparr>car_x := fadd (car_x c) (float_of_int dx), car_y := car_y c + dy,
            rect := (rect c)
              \<lparr>rect_x := pg_round (fsub (fadd (car_x c) (float_of_int dx))
                                         (float_of_int (car_width c div 2))),
               rect_y := car_y c + dy - car_height c div 2\<rparr>\<rparr>)"
proof -
  from assms have x: "in_c_int (fsub (fadd (car_x c) (float_of_int dx))
      (float_of_int (car_width c div 2)))"
    and y: "in_c_int (float_of_int (car_y c + dy - car_height c div 2))"
    by (simp_all add: car_fits_def)
  from y have "- (2 ^ 31) \<le> car_y c + dy - car_height c div 2
      \<and> car_y c + dy - car_height c div 2 \<le> 2 ^ 31 - 1"
    by (simp only: in_c_int_float_of_int simp_thms)
  then have "rect_assign (float_of_int (car_y c + dy - car_height c div 2)) =
      Inr (car_y c + dy - car_height c div 2)"
    by (simp add: rect_assign_int)
  with x show ?thesis by (simp add: car_update_def rect_assign_def Let_def)
qed

lemma car_update_Inr:
  assumes "car_update c dx dy = Inr c'"
  shows "car_fits c dx dy"
proof -
  let ?x = "fsub (fadd (car_x c) (float_of_int dx)) (float_of_int (car_width c div 2))"
  let ?y = "float_of_int (car_y c + dy - car_height c div 2)"
  from assms have "in_c_int ?x"
    by (cases "in_c_int ?x") (simp_all add: car_update_def rect_assign_def Let_def)
  moreover from assms this have "in_c_int ?y"
    by (cases "in_c_int ?y") (simp_all add: car_update_def rect_assign_def Let_def)
  ultimately show ?thesis by (simp add: car_fits_def)
qed

lemma car_update_frame:
  assumes "car_update c dx dy = Inr c'"
  shows "car_x c' = fadd (car_x c) (float_of_int dx)" and "car_y c' = car_y c + dy"
    and "car_width c' = car_width c" and "car_height c' = car_height c"
    and "color c' = color c"
    and "rect_w (rect c') = rect_w (rect c)" and "rect_h (rect c') = rect_h (rect c)"
    and "rect_x (rect c') = pg_round (fsub (car_x c') (float_of_int (car_width c' div 2)))"
    and "rect_y (rect c') = car_y c' - car_height c' div 2"
    and "in_c_int (fsub (car_x c') (float_of_int (car_width c' div 2)))"
    and "- (2 ^ 31) \<le> car_y c' - car_height c' div 2"
    and "car_y c' - car_height c' div 2 < 2 ^ 31"
proof -
  note f = car_update_Inr [OF assms]
  from assms have c': "c' = c\<lparr>car_x := fadd (car_x c) (float_of_int dx), car_y := car_y c + dy,
            rect := (rect c)
              \<lparr>rect_x := pg_round (fsub (fadd (car_x c) (float_of_int dx))
                                         (float_of_int (car_width c div 2))),
               rect_y := car_y c + dy - car_height c div 2\<rparr>\<rparr>"
    unfolding car_update_fits [OF f] by simp
  from f have r: "in_c_int (fsub (fadd (car_x c) (float_of_int dx))
      (float_of_int (car_width c div 2)))"
    "- (2 ^ 31) \<le> car_y c + dy - car_height c div 2
      \<and> car_y c + dy - car_height c div 2 \<le> 2 ^ 31 - 1"
    by (simp_all add: car_fits_def in_c_int_float_of_int)
  show "car_x c' = fadd (car_x c) (float_of_int dx)" and "car_y c' = car_y c + dy"
    and "car_width c' = car_width c" and "car_height c' = car_height c"
    and "color c' = color c"
    and "rect_w (rect c') = rect_w (rect c)" and "rect_h (rect c') = rect_h (rect c)"
    and "rect_x (rect c') = pg_round (fsub (car_x c') (float_of_int (car_width c' div 2)))"
    and "rect_y (rect c') = car_y c' - car_height c' div 2"
    by (simp_all add: c')
  from r show "in_c_int (fsub (car_x c') (float_of_int (car_width c' div 2)))"
    and "- (2 ^ 31) \<le> car_y c' - car_height c' div 2"
    and "car_y c' - car_height c' div 2 < 2 ^ 31"
    by (simp_all add: c')
qed


section \<open>The obstacle loop\<close>

lemma moved_fits:
  assumes "car_fits ob 0 (obstacle_speed g)"
  shows "car_update ob 0 (obstacle_speed g) = Inr (moved g ob)"
  using car_update_fits [OF assms] by (simp add: moved_def)

lemma moved_frame:
  assumes "car_fits ob 0 (obstacle_speed g)"
  shows "car_y (moved g ob) = car_y ob + obstacle_speed g"
    and "car_width (moved g ob) = car_width ob" and "car_height (moved g ob) = car_height ob"
    and "rect_y (rect (moved g ob)) = car_y ob + obstacle_speed g - car_height ob div 2"
  using car_update_frame [OF moved_fits [OF assms]] by simp_all

lemma obstacle_pass_Cons:
  assumes "car_fits ob 0 (obstacle_speed g)"
  shows "obstacle_pass g (ob # rest) =
     (if hits g ob then Inr ((moved g ob, Collided) # map (\<lambda>c. (c, NotReached)) rest)
      else (case obstacle_pass g rest of
              Inl e \<Rightarrow> Inl e
            | Inr pass \<Rightarrow> Inr (visit g ob # pass)))"
  by (cases "obstacle_pass g rest") (simp_all add: moved_fits [OF assms] hits_def visit_def)

lemma pass_no_hit:
  "\<forall>ob \<in> set obs. car_fits ob 0 (obstacle_speed g) \<and> \<not> hits g ob \<Longrightarrow>
   obstacle_pass g obs = Inr (map (visit g) obs)"
  by (induction obs) (simp_all add: obstacle_pass_Cons del: obstacle_pass.simps(2))

lemma pass_first_hit:
  "car_fits ob 0 (obstacle_speed g) \<Longrightarrow> hits g ob \<Longrightarrow>
   \<forall>p \<in> set pre. car_fits p 0 (obstacle_speed g) \<and> \<not> hits g p \<Longrightarrow>
   obstacle_pass g (pre @ ob # post) =
     Inr (map (visit g) pre @ (moved g ob, Collided) # map (\<lambda>c. (c, NotReached)) post)"
  by (induction pre) (simp_all add: obstacle_pass_Cons del: obstacle_pass.simps(2))

lemma length_obstacle_pass:
  "obstacle_pass g obs = Inr pass \<Longrightarrow> length pass = length obs"
proof (induction obs arbitrary: pass)
  case Nil
  then show ?case by simp
next
  case (Cons ob obs)
  show ?case
  proof (cases "car_update ob 0 (obstacle_speed g)")
    case (Inl e)
    with Cons.prems show ?thesis by simp
  next
    case (Inr m)
    show ?thesis
    proof (cases "obstacle_pass g obs")
      case (Inl e)
      with Cons.prems Inr show ?thesis by (auto split: if_splits)
    next
      case r: (Inr ps)
      from Cons.IH [OF r] have "length ps = length obs" .
      with Cons.prems Inr r show ?thesis by (auto split: if_splits)
    qed
  qed
qed

lemma visit_not_Collided: "snd (visit g ob) \<noteq> Collided"
  by (simp add: visit_def)

lemma takeWhile_shorter:
  "\<exists>x \<in> set xs. \<not> P x \<Longrightarrow> length (takeWhile P xs) < length xs"
  by (induction xs) auto

lemma first_hit_props:
  assumes "\<exists>ob \<in> set obs. hits g ob"
  shows "first_hit g obs < length obs"
    and "hits g (obs ! first_hit g obs)"
    and "\<forall>p \<in> set (take (first_hit g obs) obs). \<not> hits g p"
    and "obs = take (first_hit g obs) obs @ obs ! first_hit g obs # drop (Suc (first_hit g obs)) obs"
proof -
  let ?P = "\<lambda>ob. \<not> hits g ob"
  from assms have "\<exists>ob \<in> set obs. \<not> ?P ob" by simp
  then show l: "first_hit g obs < length obs"
    unfolding first_hit_def by (rule takeWhile_shorter)
  from nth_length_takeWhile [of ?P obs] l show "hits g (obs ! first_hit g obs)"
    by (simp add: first_hit_def)
  have "take (first_hit g obs) obs = takeWhile ?P obs"
    unfolding first_hit_def by (rule takeWhile_eq_take [symmetric])
  then show "\<forall>p \<in> set (take (first_hit g obs) obs). \<not> hits g p"
    using set_takeWhileD [of _ ?P obs] by auto
  from l show "obs = take (first_hit g obs) obs @ obs ! first_hit g obs # drop (Suc (first_hit g obs)) obs"
    by (rule id_take_nth_drop)
qed

lemma obstacle_pass_hit:
  assumes "list_all (\<lambda>ob. car_fits ob 0 (obstacle_speed g)) obs"
    and "\<exists>ob \<in> set obs. hits g ob"
  shows "obstacle_pass g obs =
           Inr (map (visit g) (take (first_hit g obs) obs)
                @ (moved g (obs ! first_hit g obs), Collided)
                # map (\<lambda>c. (c, NotReached)) (drop (Suc (first_hit g obs)) obs))"
proof -
  note p = first_hit_props [OF assms(2)]
  from assms(1) have f: "\<forall>ob \<in> set obs. car_fits ob 0 (obstacle_speed g)"
    by (simp add: list_all_iff)
  from p(1) have "obs ! first_hit g obs \<in> set obs" by simp
  with f have f1: "car_fits (obs ! first_hit g obs) 0 (obstacle_speed g)" by blast
  have "set (take (first_hit g obs) obs) \<subseteq> set obs" by (rule set_take_subset)
  with f p(3) have f2: "\<forall>p \<in> set (take (first_hit g obs) obs).
      car_fits p 0 (obstacle_speed g) \<and> \<not> hits g p"
    by blast
  have "obstacle_pass g (take (first_hit g obs) obs @ obs ! first_hit g obs
           # drop (Suc (first_hit g obs)) obs) =
        Inr (map (visit g) (take (first_hit g obs) obs)
           @ (moved g (obs ! first_hit g obs), Collided)
           # map (\<lambda>c. (c, NotReached)) (drop (Suc (first_hit g obs)) obs))"
    using f1 p(2) f2 by (rule pass_first_hit)
  with p(4) show ?thesis by simp
qed

lemma obstacle_pass_miss:
  assumes "list_all (\<lambda>ob. car_fits ob 0 (obstacle_speed g)) obs"
    and "\<not> (\<exists>ob \<in> set obs. hits g ob)"
  shows "obstacle_pass g obs = Inr (map (visit g) obs)"
  using assms by (intro pass_no_hit) (simp add: list_all_iff)

lemma update_obstacles_first_hit:
  assumes "list_all (\<lambda>ob. car_fits ob 0 (obstacle_speed g)) (obstacles g)"
    and "\<exists>ob \<in> set (obstacles g). hits g ob"
  shows "update_obstacles g =
           Inr (g\<lparr>obstacles :=
                    map (moved g) (take (Suc (first_hit g (obstacles g))) (obstacles g))
                    @ drop (Suc (first_hit g (obstacles g))) (obstacles g),
                  game_over := True\<rparr>)"
proof -
  let ?n = "first_hit g (obstacles g)"
  note p = first_hit_props [OF assms(2)]
  note q = obstacle_pass_hit [OF assms]
  have t: "take (Suc ?n) (obstacles g) = take ?n (obstacles g) @ [obstacles g ! ?n]"
    using p(1) by (rule take_Suc_conv_app_nth)
  show ?thesis
    unfolding update_obstacles_def q
    by (simp add: t visit_def comp_def do_game_over_def image_Un)
qed

lemma update_obstacles_no_hit:
  assumes "list_all (\<lambda>ob. car_fits ob 0 (obstacle_speed g)) (obstacles g)"
    and "\<not> (\<exists>ob \<in> set (obstacles g). hits g ob)"
  shows "update_obstacles g =
           Inr (g\<lparr>obstacles := filter (\<lambda>ob. \<not> car_y ob > height (config g))
                                        (map (moved g) (obstacles g))\<rparr>)"
proof -
  note q = obstacle_pass_miss [OF assms]
  have c: "Collided \<notin> snd ` visit g ` set (obstacles g)"
    by (auto simp: visit_def split: if_splits)
  have f: "map fst (filter (\<lambda>(ob, b). b \<noteq> OffScreen) (map (visit g) obs)) =
           filter (\<lambda>ob. \<not> car_y ob > height (config g)) (map (moved g) obs)" for obs
    by (induction obs) (simp_all add: visit_def)
  show ?thesis
    unfolding update_obstacles_def q using c by (simp add: f image_image)
qed

lemma update_obstacles_frame:
  assumes "update_obstacles g = Inr g'"
  shows "config g' = config g" and "track_left g' = track_left g"
    and "track_right g' = track_right g" and "lane_width g' = lane_width g"
    and "car_speed g' = car_speed g" and "road_scroll_speed g' = road_scroll_speed g"
    and "obstacle_speed g' = obstacle_speed g"
    and "spawn_cooldown_range g' = spawn_cooldown_range g"
    and "player_car g' = player_car g" and "lane_markers g' = lane_markers g"
    and "score g' = score g" and "spawn_timer g' = spawn_timer g"
    and "rng g' = rng g" and "running g' = running g"
proof -
  from assms obtain pass where p: "obstacle_pass g (obstacles g) = Inr pass"
    by (cases "obstacle_pass g (obstacles g)") (simp_all add: update_obstacles_def)
  with assms have "g' = (if Collided \<in> set (map snd pass)
       then do_game_over (g\<lparr>obstacles := map fst pass\<rparr>)
       else g\<lparr>obstacles := map fst (filter (\<lambda>(ob, b). b \<noteq> OffScreen) pass)\<rparr>)"
    by (simp add: update_obstacles_def)
  then show "config g' = config g" and "track_left g' = track_left g"
    and "track_right g' = track_right g" and "lane_width g' = lane_width g"
    and "car_speed g' = car_speed g" and "road_scroll_speed g' = road_scroll_speed g"
    and "obstacle_speed g' = obstacle_speed g"
    and "spawn_cooldown_range g' = spawn_cooldown_range g"
    and "player_car g' = player_car g" and "lane_markers g' = lane_markers g"
    and "score g' = score g" and "spawn_timer g' = spawn_timer g"
    and "rng g' = rng g" and "running g' = running g"
    by (simp_all add: do_game_over_def)
qed

lemma update_obstacles_fits:
  assumes "list_all (\<lambda>ob. car_fits ob 0 (obstacle_speed g)) (obstacles g)"
  shows "\<exists>g'. update_obstacles g = Inr g'
           \<and> (game_over g' \<longleftrightarrow> game_over g \<or> (\<exists>ob \<in> set (obstacles g). hits g ob))"
proof (cases "\<exists>ob \<in> set (obstacles g). hits g ob")
  case True
  from update_obstacles_first_hit [OF assms True] True show ?thesis by simp
next
  case False
  from update_obstacles_no_hit [OF assms False] False show ?thesis by simp
qed


section \<open>Evaluating concrete frames\<close>

lemmas float_eval =
  fl_zero fl_one fl_numeral fl_neg_numeral float_of_int_def fadd_def fsub_def fmul_def
  fdiv_def int_of_float_def pg_round_zero pg_round_numeral pg_round_neg_numeral
  in_c_int_def rect_assign_def c_int_def rect_arg_int_def rect_arg_float_def

lemmas game_defs =
  update_def update_car_def update_lane_markers_def update_obstacles_def
  maybe_spawn_obstacle_def update_score_def car_update_def check_collision_def
  colliderect_def do_game_over_def next_spawn_delay_def randint_def randrange_def
  Car_def Rect_def lane_center_def car_fits_def

lemmas example_defs =
  start_game_def crash_game_def pileup_game_def exit_game_def edge_game_def
  middle_obstacle_def GameConfig_def wide_config_def gap_config_def no_keys_def
  hold_right_def steady_rng_def left_rng_def graze_config_def left_obstacle_def
  graze_game_def half_config_def half_obstacle_def half_crashed_game_def


section \<open>The steps of a frame\<close>

lemma update_car_eq:
  assumes "car_fits (player_car g) (- car_speed g) 0"
    and "car_fits (player_car g) (car_speed g) 0"
  shows "update_car g keys = Inr (g\<lparr>player_car := player_car (projr (update_car g keys))\<rparr>)"
proof -
  define dx where "dx = (if keys K_LEFT \<and> \<not> keys K_RIGHT then - car_speed g
                else if keys K_RIGHT \<and> \<not> keys K_LEFT then car_speed g
                else 0)"
  show ?thesis
  proof (cases "dx = 0")
    case True
    then show ?thesis by (simp add: update_car_def dx_def [symmetric])
  next
    case False
    then have "dx = - car_speed g \<or> dx = car_speed g"
      by (simp add: dx_def split: if_splits)
    with assms have "car_fits (player_car g) dx 0" by auto
    from car_update_fits [OF this] obtain p where "car_update (player_car g) dx 0 = Inr p"
      by blast
    with False show ?thesis by (simp add: update_car_def dx_def [symmetric] Let_def)
  qed
qed

lemma at_obstacle_update_eq:
  assumes "car_fits (player_car g) (- car_speed g) 0"
    and "car_fits (player_car g) (car_speed g) 0"
  shows "at_obstacle_update g keys =
     g\<lparr>player_car := player_car (projr (update_car g keys)),
       lane_markers := lane_markers (update_lane_markers g)\<rparr>"
proof -
  let ?g1 = "g\<lparr>player_car := player_car (projr (update_car g keys))\<rparr>"
  have "projr (update_car g keys) = ?g1"
    by (subst update_car_eq [OF assms]) simp
  then have "at_obstacle_update g keys = update_lane_markers ?g1"
    by (simp only: at_obstacle_update_def)
  also have "\<dots> = g\<lparr>player_car := player_car (projr (update_car g keys)),
       lane_markers := lane_markers (update_lane_markers g)\<rparr>"
    by (simp add: update_lane_markers_def cong: if_cong)
  finally show ?thesis .
qed

lemma new_obstacle_Car:
  assumes "- (2 ^ 63) \<le> spawn_width g" and "spawn_width g < 2 ^ 63"
  shows "Car (lane_center g lane) (- 50) (spawn_width g) 50 color_enemy_car =
           Inr (new_obstacle g lane)"
    and "car_x (new_obstacle g lane) = lane_center g lane"
    and "car_y (new_obstacle g lane) = - 50"
    and "car_width (new_obstacle g lane) = spawn_width g"
    and "car_height (new_obstacle g lane) = 50"
    and "rect_x (rect (new_obstacle g lane)) =
           rect_arg_float (fsub (lane_center g lane) (float_of_int (spawn_width g div 2)))"
    and "rect_y (rect (new_obstacle g lane)) = - 75"
    and "rect_w (rect (new_obstacle g lane)) = c_int (spawn_width g)"
    and "rect_h (rect (new_obstacle g lane)) = 50"
    and "rect_bottom (rect (new_obstacle g lane)) = - 25"
  using assms
  by (simp_all add: new_obstacle_def Car_def Rect_def rect_arg_int_def c_int_def
      rect_bottom_def)

lemma maybe_spawn_obstacle_eq:
  assumes "0 < lane_count (config g)"
    and "fst (spawn_cooldown_range g) \<le> snd (spawn_cooldown_range g)"
    and "- (2 ^ 63) \<le> spawn_width g" and "spawn_width g < 2 ^ 63"
  shows "maybe_spawn_obstacle g =
           Inr (if spawn_timer g - 1 \<le> 0
                then g\<lparr>obstacles := obstacles g @ [new_obstacle g (spawn_lane g)],
                       spawn_timer := spawn_delay g,
                       rng := \<lambda>i. rng g (Suc (Suc i))\<rparr>
                else g\<lparr>spawn_timer := spawn_timer g - 1\<rparr>)"
proof -
  let ?g1 = "g\<lparr>spawn_timer := spawn_timer g - 1\<rparr>"
  have w: "spawn_width ?g1 = spawn_width g" by (simp add: spawn_width_def)
  have l: "lane_center ?g1 lane = lane_center g lane" for lane
    by (simp add: lane_center_def)
  have n: "new_obstacle ?g1 lane = new_obstacle g lane" for lane
    by (simp add: new_obstacle_def w l)
  have c: "Car (lane_center ?g1 lane) (- 50)
             (int_of_float (fmul (lane_width g) (fl (3 / 5)))) 50 color_enemy_car =
           Inr (new_obstacle g lane)" for lane
    using new_obstacle_Car(1) [of g lane] assms(3,4)
    by (simp only: l) (simp add: spawn_width_def)
  show ?thesis
    using assms(1,2)
    by (simp add: maybe_spawn_obstacle_def c randrange_def randint_def next_spawn_delay_def
        spawn_lane_def spawn_delay_def Let_def)
qed

lemma update_running:
  assumes "frame_ok g" and "\<not> game_over g"
  shows "update g keys =
     (let g3 = after_obstacle_update g keys;
          s = fadd (score g) (fdiv 1 (float_of_int (fps (config g))))
      in Inr (if spawn_timer g - 1 \<le> 0
              then g3\<lparr>obstacles := obstacles g3 @ [new_obstacle g (spawn_lane g)],
                      spawn_timer := spawn_delay g,
                      rng := \<lambda>i. rng g (Suc (Suc i)), score := s\<rparr>
              else g3\<lparr>spawn_timer := spawn_timer g - 1, score := s\<rparr>))"
    and "update_obstacles (at_obstacle_update g keys) = Inr (after_obstacle_update g keys)"
    and "obstacles (at_obstacle_update g keys) = obstacles g"
    and "list_all (\<lambda>ob. car_fits ob 0 (obstacle_speed (at_obstacle_update g keys)))
           (obstacles (at_obstacle_update g keys))"
    and "game_over (after_obstacle_update g keys) \<longleftrightarrow>
           (\<exists>ob \<in> set (obstacles g). hits (at_obstacle_update g keys) ob)"
    and "player_car (after_obstacle_update g keys) = player_car (projr (update_car g keys))"
    and "lane_markers (after_obstacle_update g keys) = lane_markers (update_lane_markers g)"
    and "config (after_obstacle_update g keys) = config g"
    and "track_left (after_obstacle_update g keys) = track_left g"
    and "track_right (after_obstacle_update g keys) = track_right g"
    and "road_scroll_speed (after_obstacle_update g keys) = road_scroll_speed g"
    and "obstacle_speed (at_obstacle_update g keys) = obstacle_speed g"
proof -
  let ?g2 = "at_obstacle_update g keys"
  let ?g3 = "after_obstacle_update g keys"
  from assms(1) have p: "car_fits (player_car g) (- car_speed g) 0"
    "car_fits (player_car g) (car_speed g) 0"
    and o: "list_all (\<lambda>ob. car_fits ob 0 (obstacle_speed g)) (obstacles g)"
    and z: "fps (config g) \<noteq> 0"
    and lc: "0 < lane_count (config g)"
    and cd: "fst (spawn_cooldown_range g) \<le> snd (spawn_cooldown_range g)"
    and sw: "- (2 ^ 63) \<le> spawn_width g" "spawn_width g < 2 ^ 63"
    by (simp_all add: frame_ok_def)
  note e2 = at_obstacle_update_eq [OF p, of keys]
  have uc: "update_car g keys = Inr (projr (update_car g keys))"
    using update_car_eq [OF p, of keys] by (metis sum.sel(2))
  show o2: "obstacles ?g2 = obstacles g" by (simp add: e2)
  show s2: "obstacle_speed ?g2 = obstacle_speed g" by (simp add: e2)
  show f2: "list_all (\<lambda>ob. car_fits ob 0 (obstacle_speed ?g2)) (obstacles ?g2)"
    using o by (simp only: o2 s2)
  from update_obstacles_fits [OF f2] obtain g3 where u3: "update_obstacles ?g2 = Inr g3"
    and go3: "game_over g3 \<longleftrightarrow> game_over ?g2 \<or> (\<exists>ob \<in> set (obstacles ?g2). hits ?g2 ob)"
    by blast
  from u3 have g3: "g3 = ?g3" by (simp add: after_obstacle_update_def)
  from u3 show u3': "update_obstacles ?g2 = Inr ?g3" by (simp only: g3)
  note fr = update_obstacles_frame [OF u3']
  have "\<not> game_over ?g2" using assms(2) by (simp add: e2)
  with go3 show "game_over ?g3 \<longleftrightarrow> (\<exists>ob \<in> set (obstacles g). hits ?g2 ob)"
    by (simp only: g3 o2 simp_thms)
  show "player_car ?g3 = player_car (projr (update_car g keys))"
    and "lane_markers ?g3 = lane_markers (update_lane_markers g)"
    and c3: "config ?g3 = config g" and "track_left ?g3 = track_left g"
    and "track_right ?g3 = track_right g"
    and "road_scroll_speed ?g3 = road_scroll_speed g"
    by (simp_all add: fr e2)
  have f: "spawn_cooldown_range ?g3 = spawn_cooldown_range g"
    "rng ?g3 = rng g" "spawn_timer ?g3 = spawn_timer g" "score ?g3 = score g"
    "track_left ?g3 = track_left g" "lane_width ?g3 = lane_width g"
    by (simp_all add: fr e2)
  have w3: "spawn_width ?g3 = spawn_width g" by (simp add: spawn_width_def f)
  have n: "new_obstacle ?g3 lane = new_obstacle g lane" for lane
    by (simp add: new_obstacle_def lane_center_def w3 f)
  have l: "spawn_lane ?g3 = spawn_lane g" "spawn_delay ?g3 = spawn_delay g"
    by (simp_all add: spawn_lane_def spawn_delay_def f c3)
  have ms: "maybe_spawn_obstacle ?g3 =
           Inr (if spawn_timer g - 1 \<le> 0
                then ?g3\<lparr>obstacles := obstacles ?g3 @ [new_obstacle g (spawn_lane g)],
                       spawn_timer := spawn_delay g,
                       rng := \<lambda>i. rng g (Suc (Suc i))\<rparr>
                else ?g3\<lparr>spawn_timer := spawn_timer g - 1\<rparr>)"
    using maybe_spawn_obstacle_eq [of ?g3] lc cd sw
    by (simp only: c3 f w3 n l simp_thms)
  have "update g keys =
      (case update_obstacles (update_lane_markers (projr (update_car g keys))) of
         Inl e \<Rightarrow> Inl e
       | Inr g3 \<Rightarrow>
           (case maybe_spawn_obstacle g3 of Inl e \<Rightarrow> Inl e | Inr g4 \<Rightarrow> update_score g4))"
    using assms(2) by (subst update_def, subst uc) simp
  also have "\<dots> = (case maybe_spawn_obstacle ?g3 of
         Inl e \<Rightarrow> Inl e | Inr g4 \<Rightarrow> update_score g4)"
    using u3' by (simp add: at_obstacle_update_def)
  finally show "update g keys =
     (let g3 = after_obstacle_update g keys;
          s = fadd (score g) (fdiv 1 (float_of_int (fps (config g))))
      in Inr (if spawn_timer g - 1 \<le> 0
              then g3\<lparr>obstacles := obstacles g3 @ [new_obstacle g (spawn_lane g)],
                      spawn_timer := spawn_delay g,
                      rng := \<lambda>i. rng g (Suc (Suc i)), score := s\<rparr>
              else g3\<lparr>spawn_timer := spawn_timer g - 1, score := s\<rparr>))"
    using z by (simp add: ms update_score_def c3 f Let_def)
qed

lemma update_game_over: "game_over g \<Longrightarrow> update g keys = Inr g"
  by (simp add: update_def)

lemma handle_events_no_restart:
  "KEYDOWN K_RETURN \<notin> set evs \<Longrightarrow> \<exists>b. handle_events g evs = Inr (g\<lparr>running := b\<rparr>)"
proof (induction evs arbitrary: g)
  case Nil
  have "g = g\<lparr>running := running g\<rparr>" by simp
  then show ?case by (metis handle_events.simps(1))
next
  case (Cons ev evs)
  then have r: "KEYDOWN K_RETURN \<notin> set evs" and e: "ev \<noteq> KEYDOWN K_RETURN" by auto
  from Cons.IH [OF r, of g] obtain b1 where b1: "handle_events g evs = Inr (g\<lparr>running := b1\<rparr>)"
    by blast
  from Cons.IH [OF r, of "g\<lparr>running := False\<rparr>"]
  obtain b2 where b2: "handle_events (g\<lparr>running := False\<rparr>) evs = Inr (g\<lparr>running := b2\<rparr>)"
    by auto
  show ?case
  proof (cases ev)
    case QUIT
    with b2 show ?thesis by auto
  next
    case (KEYDOWN k)
    with e have "k \<noteq> K_RETURN" by simp
    with KEYDOWN b1 b2 show ?thesis by auto
  next
    case OTHER_EVENT
    with b1 show ?thesis by auto
  qed
qed

lemma run_game_over:
  "game_over g \<Longrightarrow> list_all no_restart frames \<Longrightarrow>
   \<exists>b. run g frames = Inr (g\<lparr>running := b\<rparr>)"
proof (induction frames arbitrary: g)
  case Nil
  have "g = g\<lparr>running := running g\<rparr>" by simp
  then show ?case by (metis run.simps(1))
next
  case (Cons fr frames)
  obtain evs keys where fr: "fr = (evs, keys)" by (cases fr)
  from Cons.prems(2) have "no_restart fr" and rest: "list_all no_restart frames"
    by simp_all
  with fr have nr: "KEYDOWN K_RETURN \<notin> set evs"
    by (simp add: no_restart_def)
  show ?case
  proof (cases "running g")
    case False
    have "g = g\<lparr>running := running g\<rparr>" by simp
    with False fr show ?thesis by (metis run.simps(2))
  next
    case True
    from handle_events_no_restart [OF nr, of g]
    obtain b where b: "handle_events g evs = Inr (g\<lparr>running := b\<rparr>)" by blast
    have go: "game_over (g\<lparr>running := b\<rparr>)" using Cons.prems(1) by simp
    from Cons.IH [OF go rest]
    obtain b' where b': "run (g\<lparr>running := b\<rparr>) frames = Inr (g\<lparr>running := b'\<rparr>)" by auto
    from True fr b b' go show ?thesis by (auto simp: update_game_over)
  qed
qed


section \<open>Facts about the example states\<close>

lemma default_spawn_width:
  assumes "lane_width g = 6567749456581973 / 70368744177664"
  shows "spawn_width g = 55"
  unfolding spawn_width_def assms by code_simp

lemma default_lane_center:
  assumes "lane_width g = 6567749456581973 / 70368744177664" and "track_left g = 60"
  shows "lane_center g 1 = 200"
  unfolding lane_center_def assms by code_simp

lemma start_ok: "frame_ok start_game" "\<not> game_over start_game"
proof -
  have "spawn_width start_game = 55"
    by (rule default_spawn_width) (simp add: start_game_def)
  then show "frame_ok start_game"
    by (simp add: frame_ok_def car_fits_def example_defs float_eval)
  show "\<not> game_over start_game" by (simp add: start_game_def)
qed

lemma crash_ok: "frame_ok crash_game" "\<not> game_over crash_game"
proof -
  have "spawn_width crash_game = 55"
    by (rule default_spawn_width) (simp add: example_defs)
  then show "frame_ok crash_game"
    by (simp add: frame_ok_def car_fits_def example_defs float_eval)
  show "\<not> game_over crash_game" by (simp add: example_defs)
qed

lemma crash_at_obstacle_update:
  "at_obstacle_update crash_game no_keys =
     crash_game\<lparr>lane_markers :=
       [(153, 93), (153, 222), (153, 351), (153, 477), (153, - 45), (153, 84),
        (246, 93), (246, 222), (246, 351), (246, 477), (246, - 45), (246, 84)]\<rparr>"
  by (simp add: at_obstacle_update_def update_car_def update_lane_markers_def example_defs)

lemma crash_obstacles: "obstacles crash_game = [middle_obstacle 475, middle_obstacle 211]"
  by (simp add: crash_game_def)

lemma crash_moved:
  "moved (at_obstacle_update crash_game no_keys) (middle_obstacle 475) = middle_obstacle 478"
  unfolding crash_at_obstacle_update
  by (simp add: moved_def example_defs car_update_def float_eval)

lemma crash_hit: "hits (at_obstacle_update crash_game no_keys) (middle_obstacle 475)"
  unfolding hits_def crash_moved unfolding crash_at_obstacle_update
  by (simp add: example_defs check_collision_def colliderect_def c_int_def)

lemma crash_hits: "\<exists>ob \<in> set (obstacles crash_game).
    hits (at_obstacle_update crash_game no_keys) ob"
  using crash_hit by (simp add: crash_game_def)

lemma crash_first_hit:
  "first_hit (at_obstacle_update crash_game no_keys)
     [middle_obstacle 475, middle_obstacle 211] = 0"
  using crash_hit by (simp add: first_hit_def)

lemma crash_new_obstacle:
  "new_obstacle crash_game (spawn_lane crash_game) = middle_obstacle (- 50)"
proof -
  have w: "spawn_width crash_game = 55"
    by (rule default_spawn_width) (simp add: example_defs)
  have c: "lane_center crash_game 1 = 200"
    by (rule default_lane_center) (simp_all add: example_defs)
  have "spawn_lane crash_game = 1" by (simp add: spawn_lane_def example_defs)
  then show ?thesis
    by (simp add: new_obstacle_def w c Car_def Rect_def middle_obstacle_def
        color_enemy_car_def float_eval)
qed

lemma crash_score:
  "fadd (score crash_game) (fdiv 1 (float_of_int (fps (config crash_game)))) =
     2476979795053767 / 562949953421312"
  by code_simp

lemma crash_spawn: "spawn_timer crash_game = 1" "spawn_delay crash_game = 88"
  by (simp_all add: spawn_delay_def example_defs)

lemma crash_frame:
  "\<exists>g'. update crash_game no_keys = Inr g' \<and> game_over g'
     \<and> obstacles (after_obstacle_update crash_game no_keys) =
           [middle_obstacle 478, middle_obstacle 211]
     \<and> obstacles g' = [middle_obstacle 478, middle_obstacle 211, middle_obstacle (- 50)]
     \<and> spawn_timer g' = 88 \<and> score g' = 2476979795053767 / 562949953421312"
proof -
  note r = update_running [OF crash_ok, of no_keys]
  let ?g2 = "at_obstacle_update crash_game no_keys"
  let ?g3 = "after_obstacle_update crash_game no_keys"
  have h: "\<exists>ob \<in> set (obstacles ?g2). hits ?g2 ob"
    using crash_hits by (simp only: r(3))
  from update_obstacles_first_hit [OF r(4) h] r(2)
  have "?g3 = ?g2\<lparr>obstacles :=
                    map (moved ?g2) (take (Suc (first_hit ?g2 (obstacles ?g2))) (obstacles ?g2))
                    @ drop (Suc (first_hit ?g2 (obstacles ?g2))) (obstacles ?g2),
                  game_over := True\<rparr>"
    by simp
  then have "obstacles ?g3 =
       map (moved ?g2) (take (Suc (first_hit ?g2 (obstacles ?g2))) (obstacles ?g2))
       @ drop (Suc (first_hit ?g2 (obstacles ?g2))) (obstacles ?g2)"
    by simp
  then have o: "obstacles ?g3 = [middle_obstacle 478, middle_obstacle 211]"
    by (simp add: r(3) crash_obstacles crash_first_hit crash_moved)
  have g: "game_over ?g3" using crash_hits by (simp only: r(5))
  show ?thesis
    unfolding r(1) Let_def
    using o g by (simp add: crash_spawn crash_new_obstacle crash_score)
qed


section \<open>The score\<close>

lemma pow2_tiny: "pow2 (- 1022) \<le> 1 / 2 ^ 21"
  by (simp add: pow2_def)

lemma score_step_bounds:
  fixes F :: int and s :: rat
  assumes "0 < F" and "F \<le> 2 ^ 20" and "0 \<le> s" and "s \<le> 2 ^ 30"
  shows "s < fadd s (fdiv 1 (float_of_int F))"
    and "\<bar>fadd s (fdiv 1 (float_of_int F)) - (s + 1 / of_int F)\<bar> \<le> (s + 1 / of_int F) / 2 ^ 51"
proof -
  define i :: rat where "i = 1 / of_int F"
  define d where "d = fl i"
  define x where "x = s + d"
  have "\<bar>F\<bar> < 2 ^ 53" using assms(1,2) by simp
  then have f: "float_of_int F = of_int F"
    unfolding float_of_int_def by (rule fl_of_int)
  have "(of_int F :: rat) \<le> of_int (2 ^ 20)" using assms(2) by (simp only: of_int_le_iff)
  then have F: "(of_int F :: rat) \<le> 2 ^ 20" "0 < (of_int F :: rat)" using assms(1) by simp_all
  have "1 / 2 ^ 20 \<le> 1 / (of_int F :: rat)"
    using F by (intro divide_left_mono) simp_all
  then have i: "1 / 2 ^ 20 \<le> i" by (simp add: i_def)
  have i': "1 / 1048576 \<le> i" using i by simp
  have "pow2 (- 1022) \<le> i" using pow2_tiny i by simp
  then have e1: "\<bar>d - i\<bar> \<le> i / 2 ^ 53" unfolding d_def by (rule fl_error)
  then have "d - i \<le> i / 2 ^ 53 \<and> - (d - i) \<le> i / 2 ^ 53" by (simp only: abs_le_iff)
  then have e1': "d - i \<le> i / 9007199254740992" "i - d \<le> i / 9007199254740992"
    by simp_all
  from e1' i' have d: "1 / 2097152 \<le> d" by linarith
  have "pow2 (- 1022) \<le> 1 / 2097152" using pow2_tiny by simp
  with d assms(3) have "pow2 (- 1022) \<le> x" unfolding x_def by linarith
  then have e2: "\<bar>fl x - x\<bar> \<le> x / 2 ^ 53" by (rule fl_error)
  then have "fl x - x \<le> x / 2 ^ 53 \<and> - (fl x - x) \<le> x / 2 ^ 53" by (simp only: abs_le_iff)
  then have e2': "fl x - x \<le> x / 9007199254740992" "x - fl x \<le> x / 9007199254740992"
    by simp_all
  have s': "s \<le> 1073741824" using assms(4) by simp
  have r: "fadd s (fdiv 1 (float_of_int F)) = fl x"
    by (simp add: fadd_def fdiv_def f x_def d_def i_def)
  from e1' e2' i' d assms(3) s' have lt: "s < fl x" unfolding x_def by (simp add: field_simps)
  from e1' e2' i' d assms(3) s'
  have "fl x - (s + i) \<le> (s + i) / 2251799813685248 \<and>
        - (fl x - (s + i)) \<le> (s + i) / 2251799813685248"
    unfolding x_def by (simp add: field_simps)
  then have cl: "\<bar>fl x - (s + i)\<bar> \<le> (s + i) / 2 ^ 51"
    by (simp only: abs_le_iff) simp
  from lt show "s < fadd s (fdiv 1 (float_of_int F))" by (simp only: r)
  from cl show "\<bar>fadd s (fdiv 1 (float_of_int F)) - (s + 1 / of_int F)\<bar>
      \<le> (s + 1 / of_int F) / 2 ^ 51"
    by (simp only: r i_def)
qed

text \<open>
  C8, as the code has it.  A frame processed in the game-over state changes nothing, the
  score included.  A frame processed in the running state - the frame of a collision too -
  replaces the score by the float sum of the score and the float quotient \<open>1.0 / fps\<close>.
  Both operations round, so the increase is \<open>1/fps\<close> only up to a relative error of
  \<open>2^-51\<close> of the new score; it is a strict increase for any frame rate up to \<open>2^20\<close> and
  any score from 0 to \<open>2^30\<close>.
\<close>

theorem score_spec:
  assumes "frame_ok g"
  shows "(game_over g \<longrightarrow> update g keys = Inr g)
       \<and> (\<not> game_over g \<longrightarrow>
            (\<exists>g'. update g keys = Inr g'
               \<and> score g' = fadd (score g) (fdiv 1 (float_of_int (fps (config g))))
               \<and> (0 < fps (config g) \<and> fps (config g) \<le> 2 ^ 20
                    \<and> 0 \<le> score g \<and> score g \<le> 2 ^ 30 \<longrightarrow>
                  score g < score g'
                  \<and> \<bar>score g' - (score g + 1 / of_int (fps (config g)))\<bar>
                      \<le> (score g + 1 / of_int (fps (config g))) / 2 ^ 51)))"
proof (intro conjI impI)
  assume "game_over g"
  then show "update g keys = Inr g" by (rule update_game_over)
next
  assume n: "\<not> game_over g"
  let ?s = "fadd (score g) (fdiv 1 (float_of_int (fps (config g))))"
  from update_running(1) [OF assms n, of keys]
  obtain g' where u: "update g keys = Inr g'" and s: "score g' = ?s"
    by (cases "spawn_timer g - 1 \<le> 0") (simp_all add: Let_def)
  have "score g < score g'
      \<and> \<bar>score g' - (score g + 1 / of_int (fps (config g)))\<bar>
          \<le> (score g + 1 / of_int (fps (config g))) / 2 ^ 51"
    if "0 < fps (config g) \<and> fps (config g) \<le> 2 ^ 20 \<and> 0 \<le> score g \<and> score g \<le> 2 ^ 30"
    using that score_step_bounds [of "fps (config g)" "score g"] unfolding s by blast
  with u s show "\<exists>g'. update g keys = Inr g'
               \<and> score g' = fadd (score g) (fdiv 1 (float_of_int (fps (config g))))
               \<and> (0 < fps (config g) \<and> fps (config g) \<le> 2 ^ 20
                    \<and> 0 \<le> score g \<and> score g \<le> 2 ^ 30 \<longrightarrow>
                  score g < score g'
                  \<and> \<bar>score g' - (score g + 1 / of_int (fps (config g)))\<bar>
                      \<le> (score g + 1 / of_int (fps (config g))) / 2 ^ 51)"
    by blast
qed

lemma start_score_step:
  "fadd (score start_game) (fdiv 1 (float_of_int (fps (config start_game)))) =
     4803839602528529 / 288230376151711744"
  by code_simp

theorem score_spec_witness:
  "frame_ok start_game \<and> \<not> game_over start_game
   \<and> 0 < fps (config start_game) \<and> fps (config start_game) \<le> 2 ^ 20
   \<and> 0 \<le> score start_game \<and> score start_game \<le> 2 ^ 30
   \<and> score start_game < score (projr (update start_game no_keys))"
proof -
  have b: "0 < fps (config start_game) \<and> fps (config start_game) \<le> 2 ^ 20
      \<and> 0 \<le> score start_game \<and> score start_game \<le> 2 ^ 30"
    by (simp add: example_defs)
  from score_spec [OF start_ok(1), of no_keys] start_ok(2) b
  obtain g' where "update start_game no_keys = Inr g'" "score start_game < score g'"
    by blast
  with start_ok b show ?thesis by simp
qed

text \<open>
  The claim as stated fails in the first frame of the default game: the score goes from 0
  to the float \<open>1.0 / 60\<close>, which is not \<open>1/60\<close>.
\<close>

theorem score_step_not_exact:
  "\<not> isl (update start_game no_keys) \<and> \<not> game_over start_game
   \<and> score start_game = 0 \<and> fps (config start_game) = 60
   \<and> score (projr (update start_game no_keys)) = 4803839602528529 / 288230376151711744
   \<and> score (projr (update start_game no_keys)) \<noteq> score start_game + 1 / 60"
proof -
  from update_running(1) [OF start_ok, of no_keys]
  obtain g' where "update start_game no_keys = Inr g'"
    and "score g' = fadd (score start_game) (fdiv 1 (float_of_int (fps (config start_game))))"
    by (cases "spawn_timer start_game - 1 \<le> 0") (simp_all add: Let_def)
  then show ?thesis
    by (simp add: start_score_step) (simp add: example_defs)
qed


section \<open>The spawner\<close>









section \<open>A frame with a collision\<close>

text \<open>Without a key held the player stays where it is.\<close>

lemma idle_frame:
  "update_car g no_keys = Inr g"
  "at_obstacle_update g no_keys = update_lane_markers g"
  "moved (update_lane_markers g) ob = moved g ob"
  "hits (update_lane_markers g) ob = hits g ob"
  "first_hit (update_lane_markers g) obs = first_hit g obs"
  "moved (update_lane_markers g) = moved g"
proof -
  show u: "update_car g no_keys = Inr g" by (simp add: update_car_def no_keys_def)
  then show "at_obstacle_update g no_keys = update_lane_markers g"
    by (simp add: at_obstacle_update_def)
  show m: "moved (update_lane_markers g) ob = moved g ob" for ob
    by (simp add: moved_def update_lane_markers_def)
  show h: "hits (update_lane_markers g) ob = hits g ob" for ob
    unfolding hits_def m by (simp add: check_collision_def update_lane_markers_def)
  show "first_hit (update_lane_markers g) obs = first_hit g obs"
    unfolding first_hit_def h ..
  show "moved (update_lane_markers g) = moved g"
    using m by (rule ext)
qed

lemma kept_nth:
  assumes "n < length obs"
  shows "length (map f (take (Suc n) obs) @ drop (Suc n) obs) = length obs"
    and "\<forall>i \<le> n. (map f (take (Suc n) obs) @ drop (Suc n) obs) ! i = f (obs ! i)"
    and "\<forall>i. n < i \<and> i < length obs \<longrightarrow>
           (map f (take (Suc n) obs) @ drop (Suc n) obs) ! i = obs ! i"
proof -
  from assms have l: "length (map f (take (Suc n) obs)) = Suc n" by simp
  show "length (map f (take (Suc n) obs) @ drop (Suc n) obs) = length obs" by simp
  show "\<forall>i \<le> n. (map f (take (Suc n) obs) @ drop (Suc n) obs) ! i = f (obs ! i)"
    using assms by (simp add: nth_append)
  show "\<forall>i. n < i \<and> i < length obs \<longrightarrow>
           (map f (take (Suc n) obs) @ drop (Suc n) obs) ! i = obs ! i"
    using assms by (auto simp: nth_append)
qed

text \<open>
  C1, as the code has it.  When the obstacle loop of a running frame finds an overlap, the
  frame ends with \<open>game_over\<close> set; the obstacles behind the one that hit have not been
  moved and none has been removed.  The rest of \<open>update\<close> still runs in that frame: the
  spawn timer ticks, an obstacle is spawned if it expires, and the score is incremented.
  From then on, as long as no frame brings the restart key, every frame leaves the
  obstacles, the score and \<open>game_over\<close> as they are.
\<close>

theorem collision_frame:
  assumes "frame_ok g" and "\<not> game_over g"
    and "\<exists>ob \<in> set (obstacles g). hits (at_obstacle_update g keys) ob"
  shows "\<exists>g'. update g keys = Inr g'
           \<and> game_over g'
           \<and> (let g2 = at_obstacle_update g keys; n = first_hit g2 (obstacles g);
                   obs = map (moved g2) (take (Suc n) (obstacles g)) @ drop (Suc n) (obstacles g)
               in if spawn_timer g - 1 \<le> 0
                  then obstacles g' = obs @ [new_obstacle g (spawn_lane g)]
                     \<and> spawn_timer g' = spawn_delay g
                  else obstacles g' = obs \<and> spawn_timer g' = spawn_timer g - 1)
           \<and> score g' = fadd (score g) (fdiv 1 (float_of_int (fps (config g))))
           \<and> (\<forall>frames. list_all no_restart frames \<longrightarrow>
                 (\<exists>g''. run g' frames = Inr g'' \<and> obstacles g'' = obstacles g'
                        \<and> score g'' = score g' \<and> game_over g''))"
proof -
  note r = update_running [OF assms(1,2), of keys]
  let ?g2 = "at_obstacle_update g keys"
  let ?g3 = "after_obstacle_update g keys"
  let ?n = "first_hit ?g2 (obstacles g)"
  let ?obs = "map (moved ?g2) (take (Suc ?n) (obstacles g)) @ drop (Suc ?n) (obstacles g)"
  let ?s = "fadd (score g) (fdiv 1 (float_of_int (fps (config g))))"
  let ?g' = "if spawn_timer g - 1 \<le> 0
              then ?g3\<lparr>obstacles := obstacles ?g3 @ [new_obstacle g (spawn_lane g)],
                      spawn_timer := spawn_delay g,
                      rng := \<lambda>i. rng g (Suc (Suc i)), score := ?s\<rparr>
              else ?g3\<lparr>spawn_timer := spawn_timer g - 1, score := ?s\<rparr>"
  have u: "update g keys = Inr ?g'"
    using r(1) by (simp only: Let_def)
  have h: "\<exists>ob \<in> set (obstacles ?g2). hits ?g2 ob"
    using assms(3) by (simp only: r(3))
  from update_obstacles_first_hit [OF r(4) h] r(2)
  have "?g3 = ?g2\<lparr>obstacles :=
                    map (moved ?g2) (take (Suc (first_hit ?g2 (obstacles ?g2))) (obstacles ?g2))
                    @ drop (Suc (first_hit ?g2 (obstacles ?g2))) (obstacles ?g2),
                  game_over := True\<rparr>"
    by simp
  then have "obstacles ?g3 =
       map (moved ?g2) (take (Suc (first_hit ?g2 (obstacles ?g2))) (obstacles ?g2))
       @ drop (Suc (first_hit ?g2 (obstacles ?g2))) (obstacles ?g2)"
    by simp
  then have o: "obstacles ?g3 = ?obs" by (simp only: r(3))
  have go3: "game_over ?g3" using assms(3) by (simp only: r(5))
  have go: "game_over ?g'" using go3 by simp
  have ob: "if spawn_timer g - 1 \<le> 0
            then obstacles ?g' = ?obs @ [new_obstacle g (spawn_lane g)]
               \<and> spawn_timer ?g' = spawn_delay g
            else obstacles ?g' = ?obs \<and> spawn_timer ?g' = spawn_timer g - 1"
    using o by simp
  have sc: "score ?g' = ?s" by simp
  have "\<exists>g''. run ?g' frames = Inr g'' \<and> obstacles g'' = obstacles ?g'
          \<and> score g'' = score ?g' \<and> game_over g''"
    if "list_all no_restart frames" for frames
  proof -
    from run_game_over [OF go that] obtain b where "run ?g' frames = Inr (?g'\<lparr>running := b\<rparr>)"
      by blast
    moreover have "obstacles (?g'\<lparr>running := b\<rparr>) = obstacles ?g'"
      "score (?g'\<lparr>running := b\<rparr>) = score ?g'" "game_over (?g'\<lparr>running := b\<rparr>)"
      using go by simp_all
    ultimately show ?thesis by blast
  qed
  then have later: "\<forall>frames. list_all no_restart frames \<longrightarrow>
      (\<exists>g''. run ?g' frames = Inr g'' \<and> obstacles g'' = obstacles ?g'
             \<and> score g'' = score ?g' \<and> game_over g'')"
    by blast
  from u go ob sc later show ?thesis
    unfolding Let_def by blast
qed

text \<open>
  The claim as stated fails in the frame of the collision itself: the score is still
  incremented and the spawner still runs (here it spawns a third obstacle).
\<close>

theorem collision_frame_still_scores:
  "\<not> isl (update crash_game no_keys)
   \<and> game_over (projr (update crash_game no_keys))
   \<and> obstacles (projr (update crash_game no_keys)) =
       [middle_obstacle 478, middle_obstacle 211, middle_obstacle (- 50)]
   \<and> spawn_timer crash_game = 1
   \<and> spawn_timer (projr (update crash_game no_keys)) = 88
   \<and> score crash_game = 4935194591660157 / 1125899906842624
   \<and> score (projr (update crash_game no_keys)) = 2476979795053767 / 562949953421312"
proof -
  from crash_frame obtain g' where "update crash_game no_keys = Inr g'" "game_over g'"
    "obstacles g' = [middle_obstacle 478, middle_obstacle 211, middle_obstacle (- 50)]"
    "spawn_timer g' = 88" "score g' = 2476979795053767 / 562949953421312"
    by blast
  then show ?thesis by (simp add: crash_game_def start_game_def)
qed

theorem collision_frame_witness:
  "frame_ok crash_game \<and> \<not> game_over crash_game
   \<and> hits (at_obstacle_update crash_game no_keys) (middle_obstacle 475)
   \<and> game_over (projr (update crash_game no_keys))
   \<and> obstacles (projr (run (projr (update crash_game no_keys))
                            [([], hold_right), ([OTHER_EVENT, QUIT], no_keys)])) =
       obstacles (projr (update crash_game no_keys))
   \<and> score (projr (run (projr (update crash_game no_keys))
                        [([], hold_right), ([OTHER_EVENT, QUIT], no_keys)])) =
       score (projr (update crash_game no_keys))"
proof -
  let ?frames = "[([], hold_right), ([OTHER_EVENT, QUIT], no_keys)]"
  from collision_frame [OF crash_ok crash_hits]
  obtain g' where u: "update crash_game no_keys = Inr g'" and g: "game_over g'"
    and l: "\<forall>frames. list_all no_restart frames \<longrightarrow>
          (\<exists>g''. run g' frames = Inr g'' \<and> obstacles g'' = obstacles g'
                 \<and> score g'' = score g' \<and> game_over g'')"
    by blast
  have "list_all no_restart ?frames" by (simp add: no_restart_def)
  with l obtain g'' where "run g' ?frames = Inr g''" "obstacles g'' = obstacles g'"
    "score g'' = score g'"
    by blast
  with u g crash_ok crash_hit show ?thesis by simp
qed

section \<open>The pass over the obstacles\<close>

lemma count_collided_visit:
  "filter (\<lambda>(c, b). b = Collided) (map (visit g) obs) = []"
  by (induction obs) (simp_all add: visit_def)

lemma count_collided_unreached:
  "filter (\<lambda>(c, b). b = Collided) (map (\<lambda>c. (c, NotReached)) obs) = []"
  by (induction obs) simp_all

text \<open>
  C4, as the code has it.  Each frame the obstacles are visited in list order.  A visited
  obstacle is first moved; if its centre is then below the screen it is queued for removal
  and its collision test is skipped (\<open>OffScreen\<close>), otherwise its bounding box is tested
  against the player's (\<open>Passed\<close> when it misses).  The first tested obstacle that overlaps
  ends the pass: it is the only one marked \<open>Collided\<close>, the obstacles behind it are not
  visited, \<open>game_over\<close> is set and nothing is removed.  Only a pass without a hit removes
  the queued obstacles, after all the tests.  A move takes the centre down by the obstacle
  speed and assigns the box its rounded edges.
\<close>

theorem obstacle_pass_spec:
  assumes "list_all (\<lambda>ob. car_fits ob 0 (obstacle_speed g)) (obstacles g)"
  shows "(let obs = obstacles g; n = first_hit g obs in
      (\<forall>ob \<in> set obs. car_update ob 0 (obstacle_speed g) = Inr (moved g ob)
                       \<and> car_y (moved g ob) = car_y ob + obstacle_speed g)
      \<and> (if \<exists>ob \<in> set obs. hits g ob
         then obstacle_pass g obs =
                Inr (map (visit g) (take n obs) @ (moved g (obs ! n), Collided)
                     # map (\<lambda>c. (c, NotReached)) (drop (Suc n) obs))
            \<and> length (filter (\<lambda>(c, b). b = Collided) (projr (obstacle_pass g obs))) = 1
            \<and> update_obstacles g =
                Inr (g\<lparr>obstacles := map fst (projr (obstacle_pass g obs)), game_over := True\<rparr>)
         else obstacle_pass g obs = Inr (map (visit g) obs)
            \<and> update_obstacles g =
                Inr (g\<lparr>obstacles := filter (\<lambda>ob. \<not> car_y ob > height (config g))
                                             (map (moved g) obs)\<rparr>)))"
proof -
  let ?obs = "obstacles g"
  let ?n = "first_hit g ?obs"
  from assms have f: "\<forall>ob \<in> set ?obs. car_fits ob 0 (obstacle_speed g)"
    by (simp add: list_all_iff)
  have m: "\<forall>ob \<in> set ?obs. car_update ob 0 (obstacle_speed g) = Inr (moved g ob)
                       \<and> car_y (moved g ob) = car_y ob + obstacle_speed g"
    using f moved_fits [of _ g] moved_frame(1) [of _ g] by blast
  show ?thesis
  proof (cases "\<exists>ob \<in> set ?obs. hits g ob")
    case True
    have p: "obstacle_pass g ?obs =
        Inr (map (visit g) (take ?n ?obs) @ (moved g (?obs ! ?n), Collided)
             # map (\<lambda>c. (c, NotReached)) (drop (Suc ?n) ?obs))"
      using assms True by (rule obstacle_pass_hit)
    have c: "length (filter (\<lambda>(c, b). b = Collided) (projr (obstacle_pass g ?obs))) = 1"
      unfolding p by (simp add: count_collided_visit count_collided_unreached)
    have u: "update_obstacles g =
        Inr (g\<lparr>obstacles := map fst (projr (obstacle_pass g ?obs)), game_over := True\<rparr>)"
      unfolding update_obstacles_def p by (simp add: do_game_over_def image_Un)
    from True m p c u show ?thesis by (simp only: Let_def if_True simp_thms)
  next
    case False
    from assms False have p: "obstacle_pass g ?obs = Inr (map (visit g) ?obs)"
      by (rule obstacle_pass_miss)
    from assms False have u: "update_obstacles g =
        Inr (g\<lparr>obstacles := filter (\<lambda>ob. \<not> car_y ob > height (config g))
                                     (map (moved g) ?obs)\<rparr>)"
      by (rule update_obstacles_no_hit)
    from False m p u show ?thesis by (simp only: Let_def if_False simp_thms)
  qed
qed


lemma graze_moved: "car_update (left_obstacle 475) 0 3 = Inr (left_obstacle 478)"
  by code_simp

lemma graze_fits:
  "list_all (\<lambda>ob. car_fits ob 0 (obstacle_speed graze_game)) (obstacles graze_game)"
  by code_simp

lemma graze_hit: "hits graze_game (left_obstacle 475)"
proof -
  have s: "obstacle_speed graze_game = 3" by (simp add: graze_game_def)
  have m: "moved graze_game (left_obstacle 475) = left_obstacle 478"
    by (simp add: moved_def s graze_moved)
  show ?thesis
    unfolding hits_def m
    by (simp add: example_defs check_collision_def colliderect_def c_int_def)
qed

lemma graze_first_hit: "first_hit graze_game (obstacles graze_game) = 0"
  using graze_hit by (simp add: first_hit_def graze_game_def)

theorem obstacle_pass_spec_witness:
  "list_all (\<lambda>ob. car_fits ob 0 (obstacle_speed graze_game)) (obstacles graze_game)
   \<and> hits graze_game (left_obstacle 475)
   \<and> obstacle_pass graze_game (obstacles graze_game) =
       Inr [(left_obstacle 478, Collided), (left_obstacle 214, NotReached),
            (left_obstacle (- 47), NotReached)]
   \<and> game_over (projr (update_obstacles graze_game))"
proof -
  have s: "obstacle_speed graze_game = 3" by (simp add: graze_game_def)
  have o: "obstacles graze_game = [left_obstacle 475, left_obstacle 214, left_obstacle (- 47)]"
    by (simp add: graze_game_def)
  have h: "\<exists>ob \<in> set (obstacles graze_game). hits graze_game ob"
    using graze_hit by (simp add: o)
  have m: "moved graze_game (left_obstacle 475) = left_obstacle 478"
    by (simp add: moved_def s graze_moved)
  note t = obstacle_pass_spec [OF graze_fits, unfolded Let_def graze_first_hit]
  from t h have p: "obstacle_pass graze_game (obstacles graze_game) =
      Inr (map (visit graze_game) (take 0 (obstacles graze_game))
           @ (moved graze_game (obstacles graze_game ! 0), Collided)
           # map (\<lambda>c. (c, NotReached)) (drop (Suc 0) (obstacles graze_game)))"
    and u: "update_obstacles graze_game =
      Inr (graze_game\<lparr>obstacles := map fst (projr (obstacle_pass graze_game
             (obstacles graze_game))), game_over := True\<rparr>)"
    by simp_all
  from p have p': "obstacle_pass graze_game (obstacles graze_game) =
       Inr [(left_obstacle 478, Collided), (left_obstacle 214, NotReached),
            (left_obstacle (- 47), NotReached)]"
    by (simp add: o m)
  from u have g: "game_over (projr (update_obstacles graze_game))" by simp
  from graze_fits graze_hit p' g show ?thesis by blast
qed

text \<open>
  The claim as stated fails: an obstacle whose centre has passed the bottom of the screen
  is removed without its bounding box being tested in that frame.
\<close>

theorem untested_removal:
  "obstacle_pass exit_game (obstacles exit_game) =
     Inr [(middle_obstacle 601, OffScreen), (middle_obstacle 337, Passed),
          (middle_obstacle 73, Passed)]
   \<and> update_obstacles exit_game =
       Inr (exit_game\<lparr>obstacles := [middle_obstacle 337, middle_obstacle 73]\<rparr>)"
  by (simp add: example_defs game_defs float_eval Let_def)

section \<open>The obstacle list in a frame with a collision\<close>

text \<open>
  C10, as the code has it.  When the obstacle loop detects a collision, the method removes
  nothing: every obstacle stays in the list, in its place.  The obstacles up to and
  including the one that hit have been moved down by the obstacle speed - also those that
  were queued for removal earlier in the pass - and the ones behind it are untouched.  The
  list that the frame leaves is this one, with a new obstacle at its end when the spawn
  timer expires in that frame.
\<close>

theorem collision_keeps_obstacles:
  assumes "frame_ok g" and "\<not> game_over g"
    and "\<exists>ob \<in> set (obstacles g). hits (at_obstacle_update g keys) ob"
  shows "(let g2 = at_obstacle_update g keys; obs = obstacles g; n = first_hit g2 obs;
              kept = map (moved g2) (take (Suc n) obs) @ drop (Suc n) obs
          in obstacles g2 = obs
           \<and> update_obstacles g2 = Inr (after_obstacle_update g keys)
           \<and> obstacles (after_obstacle_update g keys) = kept
           \<and> length kept = length obs \<and> n < length obs \<and> hits g2 (obs ! n)
           \<and> (\<forall>i \<le> n. kept ! i = moved g2 (obs ! i)
                  \<and> car_y (kept ! i) = car_y (obs ! i) + obstacle_speed g)
           \<and> (\<forall>i. n < i \<and> i < length obs \<longrightarrow> kept ! i = obs ! i)
           \<and> (\<exists>g'. update g keys = Inr g'
                 \<and> obstacles g' =
                     kept @ (if spawn_timer g - 1 \<le> 0
                             then [new_obstacle g (spawn_lane g)] else [])))"
proof -
  note r = update_running [OF assms(1,2), of keys]
  let ?g2 = "at_obstacle_update g keys"
  let ?g3 = "after_obstacle_update g keys"
  let ?obs = "obstacles g"
  let ?n = "first_hit ?g2 ?obs"
  let ?kept = "map (moved ?g2) (take (Suc ?n) ?obs) @ drop (Suc ?n) ?obs"
  note p = first_hit_props [OF assms(3)]
  have h: "\<exists>ob \<in> set (obstacles ?g2). hits ?g2 ob"
    using assms(3) by (simp only: r(3))
  from update_obstacles_first_hit [OF r(4) h] r(2)
  have "?g3 = ?g2\<lparr>obstacles :=
                    map (moved ?g2) (take (Suc (first_hit ?g2 (obstacles ?g2))) (obstacles ?g2))
                    @ drop (Suc (first_hit ?g2 (obstacles ?g2))) (obstacles ?g2),
                  game_over := True\<rparr>"
    by simp
  then have "obstacles ?g3 =
       map (moved ?g2) (take (Suc (first_hit ?g2 (obstacles ?g2))) (obstacles ?g2))
       @ drop (Suc (first_hit ?g2 (obstacles ?g2))) (obstacles ?g2)"
    by simp
  then have o: "obstacles ?g3 = ?kept" by (simp only: r(3))
  note k = kept_nth [OF p(1), of "moved ?g2"]
  from r(4) have f: "\<forall>ob \<in> set ?obs. car_fits ob 0 (obstacle_speed ?g2)"
    by (simp add: list_all_iff r(3))
  have y: "car_y (?kept ! i) = car_y (?obs ! i) + obstacle_speed g" if "i \<le> ?n" for i
  proof -
    from that p(1) have "?obs ! i \<in> set ?obs" by simp
    with f have "car_fits (?obs ! i) 0 (obstacle_speed ?g2)" by blast
    from moved_frame(1) [OF this] have "car_y (moved ?g2 (?obs ! i)) =
        car_y (?obs ! i) + obstacle_speed g"
      by (simp only: r(12))
    with k(2) that show ?thesis by simp
  qed
  from k(2) y have m: "\<forall>i \<le> ?n. ?kept ! i = moved ?g2 (?obs ! i)
      \<and> car_y (?kept ! i) = car_y (?obs ! i) + obstacle_speed g"
    by blast
  have u: "\<exists>g'. update g keys = Inr g'
      \<and> obstacles g' = ?kept @ (if spawn_timer g - 1 \<le> 0
                                 then [new_obstacle g (spawn_lane g)] else [])"
    unfolding r(1) Let_def using o by simp
  from r(3) r(2) o k(1) p(1) p(2) m k(3) u show ?thesis
    unfolding Let_def by blast
qed

lemma pileup_ok: "frame_ok pileup_game" "\<not> game_over pileup_game"
proof -
  have "spawn_width pileup_game = 55"
    by (rule default_spawn_width) (simp add: example_defs)
  then show "frame_ok pileup_game"
    by (simp add: frame_ok_def car_fits_def example_defs float_eval)
  show "\<not> game_over pileup_game" by (simp add: example_defs)
qed

lemma pileup_hit: "hits pileup_game (middle_obstacle 475)"
  by (simp add: hits_def moved_def example_defs game_defs float_eval)

lemma pileup_first_hit: "first_hit pileup_game (obstacles pileup_game) = 1"
  by (simp add: first_hit_def hits_def moved_def example_defs game_defs float_eval)

lemma pileup_kept:
  "map (moved pileup_game) (take (Suc 1) (obstacles pileup_game))
     @ drop (Suc 1) (obstacles pileup_game)
   = [middle_obstacle 601, middle_obstacle 478, middle_obstacle 100]"
  by (simp add: moved_def example_defs car_update_def float_eval)

theorem collision_keeps_obstacles_witness:
  "frame_ok pileup_game \<and> \<not> game_over pileup_game
   \<and> hits (at_obstacle_update pileup_game no_keys) (middle_obstacle 475)
   \<and> obstacles pileup_game =
       [middle_obstacle 598, middle_obstacle 475, middle_obstacle 100]
   \<and> obstacles (after_obstacle_update pileup_game no_keys) =
       [middle_obstacle 601, middle_obstacle 478, middle_obstacle 100]
   \<and> obstacles (projr (update pileup_game no_keys)) =
       [middle_obstacle 601, middle_obstacle 478, middle_obstacle 100]"
proof -
  have o: "obstacles pileup_game =
      [middle_obstacle 598, middle_obstacle 475, middle_obstacle 100]"
    by (simp add: pileup_game_def)
  have h1: "hits (at_obstacle_update pileup_game no_keys) (middle_obstacle 475)"
    using pileup_hit by (simp only: idle_frame)
  then have h: "\<exists>ob \<in> set (obstacles pileup_game).
      hits (at_obstacle_update pileup_game no_keys) ob"
    by (simp add: o)
  have n: "first_hit (at_obstacle_update pileup_game no_keys) (obstacles pileup_game) = 1"
    using pileup_first_hit by (simp only: idle_frame)
  have k: "map (moved (at_obstacle_update pileup_game no_keys))
       (take (Suc 1) (obstacles pileup_game)) @ drop (Suc 1) (obstacles pileup_game)
     = [middle_obstacle 601, middle_obstacle 478, middle_obstacle 100]"
    using pileup_kept by (simp only: idle_frame)
  have t: "spawn_timer pileup_game = 30" by (simp add: pileup_game_def)
  note c = collision_keeps_obstacles [OF pileup_ok h, unfolded Let_def n k t]
  from c have a: "obstacles (after_obstacle_update pileup_game no_keys) =
       [middle_obstacle 601, middle_obstacle 478, middle_obstacle 100]"
    by blast
  from c obtain g' where "update pileup_game no_keys = Inr g'"
    and "obstacles g' = [middle_obstacle 601, middle_obstacle 478, middle_obstacle 100]
           @ (if (30 :: int) - 1 \<le> 0
              then [new_obstacle pileup_game (spawn_lane pileup_game)] else [])"
    by blast
  then have b: "obstacles (projr (update pileup_game no_keys)) =
       [middle_obstacle 601, middle_obstacle 478, middle_obstacle 100]"
    by simp
  from pileup_ok h1 o a b show ?thesis by blast
qed

text \<open>
  The claim as stated fails in the collision frame of the default game: the frame moves
  the obstacle that hits, and the spawn timer expires in it, so the frame leaves a list of
  three obstacles where there were two.
\<close>

theorem collision_frame_list_grows:
  "obstacles crash_game = [middle_obstacle 475, middle_obstacle 211]
   \<and> hits (at_obstacle_update crash_game no_keys) (middle_obstacle 475)
   \<and> \<not> isl (update crash_game no_keys)
   \<and> obstacles (after_obstacle_update crash_game no_keys) =
       [middle_obstacle 478, middle_obstacle 211]
   \<and> length (obstacles (projr (update crash_game no_keys))) = 3
   \<and> obstacles (projr (update crash_game no_keys)) \<noteq> obstacles crash_game"
proof -
  from crash_frame obtain g' where "update crash_game no_keys = Inr g'"
    and "obstacles (after_obstacle_update crash_game no_keys) =
           [middle_obstacle 478, middle_obstacle 211]"
    and "obstacles g' = [middle_obstacle 478, middle_obstacle 211, middle_obstacle (- 50)]"
    by blast
  with crash_hit show ?thesis by (simp add: crash_obstacles)
qed


section \<open>Restart\<close>

lemma handle_events_running:
  "\<not> game_over g \<Longrightarrow> \<exists>b. handle_events g evs = Inr (g\<lparr>running := b\<rparr>)"
proof (induction evs arbitrary: g)
  case Nil
  have "g = g\<lparr>running := running g\<rparr>" by simp
  then show ?case by (metis handle_events.simps(1))
next
  case (Cons ev evs)
  from Cons.IH [OF Cons.prems] obtain b1
    where b1: "handle_events g evs = Inr (g\<lparr>running := b1\<rparr>)"
    by blast
  have "\<not> game_over (g\<lparr>running := False\<rparr>)" using Cons.prems by simp
  from Cons.IH [OF this]
  obtain b2 where b2: "handle_events (g\<lparr>running := False\<rparr>) evs = Inr (g\<lparr>running := b2\<rparr>)"
    by auto
  show ?case
  proof (cases ev)
    case QUIT
    with b2 show ?thesis by auto
  next
    case (KEYDOWN k)
    with Cons.prems b1 b2 show ?thesis by auto
  next
    case OTHER_EVENT
    with b1 show ?thesis by auto
  qed
qed

lemma first_delay_range:
  assumes "fst (spawn_cooldown_range g) \<le> snd (spawn_cooldown_range g)"
  shows "fst (spawn_cooldown_range g) \<le> first_delay g"
    and "first_delay g \<le> snd (spawn_cooldown_range g)"
proof -
  let ?n = "snd (spawn_cooldown_range g) - fst (spawn_cooldown_range g) + 1"
  have n: "0 < ?n" using assms by simp
  then have "0 \<le> int (rng g 0) mod ?n" "int (rng g 0) mod ?n < ?n"
    by (rule pos_mod_sign, rule pos_mod_bound)
  then show "fst (spawn_cooldown_range g) \<le> first_delay g"
    and "first_delay g \<le> snd (spawn_cooldown_range g)"
    unfolding first_delay_def by linarith+
qed

lemma reset_game_eq:
  assumes "reset_fits g"
  shows "reset_game g =
     Inr (g\<lparr>game_over := False, obstacles := [], score := 0,
            spawn_timer := first_delay g,
            rng := \<lambda>i. rng g (Suc i),
            player_car := (player_car g)
              \<lparr>car_x := lane_center g 1, car_y := height (config g) - 80,
               rect := (rect (player_car g))
                 \<lparr>rect_x := pg_round (fsub (lane_center g 1)
                               (float_of_int (car_width (player_car g) div 2))),
                  rect_y := height (config g) - 80 - car_height (player_car g) div 2\<rparr>\<rparr>\<rparr>)"
proof -
  let ?t = "height (config g) - 80 - car_height (player_car g) div 2"
  from assms have r: "fst (spawn_cooldown_range g) \<le> snd (spawn_cooldown_range g)"
    and x: "in_c_int (fsub (lane_center g 1) (float_of_int (car_width (player_car g) div 2)))"
    and y: "in_c_int (float_of_int ?t)"
    by (simp_all add: reset_fits_def)
  from y have "- (2 ^ 31) \<le> ?t \<and> ?t \<le> 2 ^ 31 - 1" by (simp only: in_c_int_float_of_int)
  then have t: "rect_assign (float_of_int ?t) = Inr ?t" by (simp add: rect_assign_int)
  have l: "lane_center (g\<lparr>game_over := False, obstacles := [], score := 0,
      rng := \<lambda>i. rng g (Suc i), spawn_timer := d\<rparr>) 1 = lane_center g 1" for d
    by (simp add: lane_center_def)
  show ?thesis
    using r x t
    by (simp add: reset_game_def next_spawn_delay_def randint_def first_delay_def l
        rect_assign_def Let_def)
qed

lemma reset_game_Inr:
  assumes "reset_game g = Inr g'"
  shows "reset_fits g"
proof -
  let ?x = "fsub (lane_center g 1) (float_of_int (car_width (player_car g) div 2))"
  let ?y = "float_of_int (height (config g) - 80 - car_height (player_car g) div 2)"
  have l: "lane_center (g\<lparr>game_over := False, obstacles := [], score := 0,
      rng := \<lambda>i. rng g (Suc i), spawn_timer := d\<rparr>) 1 = lane_center g 1" for d
    by (simp add: lane_center_def)
  from assms have r: "fst (spawn_cooldown_range g) \<le> snd (spawn_cooldown_range g)"
    by (cases "fst (spawn_cooldown_range g) \<le> snd (spawn_cooldown_range g)")
       (simp_all add: reset_game_def next_spawn_delay_def randint_def)
  from assms r have x: "in_c_int ?x"
    by (cases "in_c_int ?x")
       (simp_all add: reset_game_def next_spawn_delay_def randint_def l rect_assign_def Let_def)
  from assms r x have "in_c_int ?y"
    by (cases "in_c_int ?y")
       (simp_all add: reset_game_def next_spawn_delay_def randint_def l rect_assign_def Let_def)
  with r x show ?thesis by (simp add: reset_fits_def)
qed

text \<open>
  C5.  Outside the game-over state no event restarts the game: whatever the events of a
  frame are, \<open>handle_events\<close> changes nothing but the \<open>running\<close> flag.  In the game-over
  state the restart key resets the game: the obstacle list is empty, the score is 0.0,
  \<open>game_over\<close> is false, the spawn timer is a fresh draw from the cooldown range, and the
  player's centre is the centre of lane 1 at the height \<open>height - 80\<close>; its box gets the
  rounded left edge and the top edge of that position.  The events after the restart key
  can only change \<open>running\<close>.
\<close>

theorem restart_spec:
  "(\<not> game_over g \<longrightarrow> (\<exists>b. handle_events g evs = Inr (g\<lparr>running := b\<rparr>)))
   \<and> (game_over g \<and> reset_fits g \<longrightarrow>
        (\<exists>g' b. reset_game g = Inr g'
           \<and> handle_events g (KEYDOWN K_RETURN # evs) = Inr (g'\<lparr>running := b\<rparr>)
           \<and> obstacles g' = [] \<and> score g' = 0 \<and> \<not> game_over g'
           \<and> spawn_timer g' = first_delay g
           \<and> fst (spawn_cooldown_range g) \<le> spawn_timer g'
           \<and> spawn_timer g' \<le> snd (spawn_cooldown_range g)
           \<and> car_x (player_car g') = lane_center g 1
           \<and> car_y (player_car g') = height (config g) - 80
           \<and> car_width (player_car g') = car_width (player_car g)
           \<and> car_height (player_car g') = car_height (player_car g)
           \<and> rect_x (rect (player_car g')) =
               pg_round (fsub (lane_center g 1)
                 (float_of_int (car_width (player_car g) div 2)))
           \<and> rect_y (rect (player_car g')) =
               height (config g) - 80 - car_height (player_car g) div 2))"
proof (intro conjI impI)
  assume "\<not> game_over g"
  then show "\<exists>b. handle_events g evs = Inr (g\<lparr>running := b\<rparr>)"
    by (rule handle_events_running)
next
  assume a: "game_over g \<and> reset_fits g"
  then have go: "game_over g" and f: "reset_fits g" by simp_all
  from f have r: "fst (spawn_cooldown_range g) \<le> snd (spawn_cooldown_range g)"
    by (simp add: reset_fits_def)
  let ?g' = "g\<lparr>game_over := False, obstacles := [], score := 0,
            spawn_timer := first_delay g,
            rng := \<lambda>i. rng g (Suc i),
            player_car := (player_car g)
              \<lparr>car_x := lane_center g 1, car_y := height (config g) - 80,
               rect := (rect (player_car g))
                 \<lparr>rect_x := pg_round (fsub (lane_center g 1)
                               (float_of_int (car_width (player_car g) div 2))),
                  rect_y := height (config g) - 80 - car_height (player_car g) div 2\<rparr>\<rparr>\<rparr>"
  have e: "reset_game g = Inr ?g'" using f by (rule reset_game_eq)
  have "\<not> game_over ?g'" by simp
  from handle_events_running [OF this, of evs]
  obtain b where "handle_events ?g' evs = Inr (?g'\<lparr>running := b\<rparr>)" by blast
  with go e have h: "handle_events g (KEYDOWN K_RETURN # evs) = Inr (?g'\<lparr>running := b\<rparr>)"
    by simp
  note d = first_delay_range [OF r]
  have f: "obstacles ?g' = [] \<and> score ?g' = 0 \<and> \<not> game_over ?g'
           \<and> spawn_timer ?g' = first_delay g
           \<and> fst (spawn_cooldown_range g) \<le> spawn_timer ?g'
           \<and> spawn_timer ?g' \<le> snd (spawn_cooldown_range g)
           \<and> car_x (player_car ?g') = lane_center g 1
           \<and> car_y (player_car ?g') = height (config g) - 80
           \<and> car_width (player_car ?g') = car_width (player_car g)
           \<and> car_height (player_car ?g') = car_height (player_car g)
           \<and> rect_x (rect (player_car ?g')) =
               pg_round (fsub (lane_center g 1)
                 (float_of_int (car_width (player_car g) div 2)))
           \<and> rect_y (rect (player_car ?g')) =
               height (config g) - 80 - car_height (player_car g) div 2"
    using d by simp
  from e h f show "\<exists>g' b. reset_game g = Inr g'
           \<and> handle_events g (KEYDOWN K_RETURN # evs) = Inr (g'\<lparr>running := b\<rparr>)
           \<and> obstacles g' = [] \<and> score g' = 0 \<and> \<not> game_over g'
           \<and> spawn_timer g' = first_delay g
           \<and> fst (spawn_cooldown_range g) \<le> spawn_timer g'
           \<and> spawn_timer g' \<le> snd (spawn_cooldown_range g)
           \<and> car_x (player_car g') = lane_center g 1
           \<and> car_y (player_car g') = height (config g) - 80
           \<and> car_width (player_car g') = car_width (player_car g)
           \<and> car_height (player_car g') = car_height (player_car g)
           \<and> rect_x (rect (player_car g')) =
               pg_round (fsub (lane_center g 1)
                 (float_of_int (car_width (player_car g) div 2)))
           \<and> rect_y (rect (player_car g')) =
               height (config g) - 80 - car_height (player_car g) div 2"
    by blast
qed

lemma half_lane_center: "lane_center half_crashed_game 1 = 401 / 2"
  by code_simp

lemma half_left_edge:
  "pg_round (fsub (401 / 2) (float_of_int 28)) = 173"
  "in_c_int (fsub (401 / 2) (float_of_int 28))"
  by code_simp+

lemma half_crashed_facts:
  "game_over half_crashed_game" "reset_fits half_crashed_game"
  "first_delay half_crashed_game = 88"
  "height (config half_crashed_game) - 80 = 520"
  "car_width (player_car half_crashed_game) = 56"
  "car_height (player_car half_crashed_game) = 40"
  "rect_x (rect (player_car half_crashed_game)) = 172"
proof -
  show "reset_fits half_crashed_game"
    unfolding reset_fits_def half_lane_center
    using half_left_edge(2) by (simp add: example_defs float_eval)
qed (simp_all add: first_delay_def example_defs)

theorem restart_spec_witness:
  "game_over half_crashed_game \<and> reset_fits half_crashed_game
   \<and> \<not> isl (handle_events half_crashed_game [KEYDOWN K_RETURN])
   \<and> obstacles (projr (handle_events half_crashed_game [KEYDOWN K_RETURN])) = []
   \<and> score (projr (handle_events half_crashed_game [KEYDOWN K_RETURN])) = 0
   \<and> \<not> game_over (projr (handle_events half_crashed_game [KEYDOWN K_RETURN]))
   \<and> spawn_timer (projr (handle_events half_crashed_game [KEYDOWN K_RETURN])) = 88
   \<and> car_x (player_car (projr (handle_events half_crashed_game [KEYDOWN K_RETURN]))) = 401 / 2
   \<and> car_y (player_car (projr (handle_events half_crashed_game [KEYDOWN K_RETURN]))) = 520
   \<and> rect_x (rect (player_car half_crashed_game)) = 172
   \<and> rect_x (rect (player_car (projr (handle_events half_crashed_game [KEYDOWN K_RETURN]))))
       = 173
   \<and> rect_y (rect (player_car (projr (handle_events half_crashed_game [KEYDOWN K_RETURN]))))
       = 500"
proof -
  from restart_spec [of half_crashed_game "[]"] half_crashed_facts(1,2)
  obtain g' b
    where h: "handle_events half_crashed_game [KEYDOWN K_RETURN] = Inr (g'\<lparr>running := b\<rparr>)"
    and f: "obstacles g' = []" "score g' = 0" "\<not> game_over g'"
      "spawn_timer g' = first_delay half_crashed_game"
      "car_x (player_car g') = lane_center half_crashed_game 1"
      "car_y (player_car g') = height (config half_crashed_game) - 80"
      "rect_x (rect (player_car g')) =
         pg_round (fsub (lane_center half_crashed_game 1)
           (float_of_int (car_width (player_car half_crashed_game) div 2)))"
      "rect_y (rect (player_car g')) =
         height (config half_crashed_game) - 80
         - car_height (player_car half_crashed_game) div 2"
    by blast
  from h f half_crashed_facts show ?thesis
    by (simp add: half_lane_center half_left_edge(1))
qed


section \<open>Bounding boxes\<close>

lemma Rect_Inr:
  assumes "Rect l t w h = Inr r"
  shows "r = \<lparr>rect_x = rect_arg_float l, rect_y = c_int t, rect_w = c_int w,
              rect_h = c_int h\<rparr>"
proof -
  from assms obtain t' where t: "rect_arg_int t = Inr t'"
    by (cases "rect_arg_int t") (simp_all add: Rect_def)
  from assms t obtain w' where w: "rect_arg_int w = Inr w'"
    by (cases "rect_arg_int w") (simp_all add: Rect_def)
  from assms t w obtain h' where h: "rect_arg_int h = Inr h'"
    by (cases "rect_arg_int h") (simp_all add: Rect_def)
  from assms t w h have "r = \<lparr>rect_x = rect_arg_float l, rect_y = t', rect_w = w',
      rect_h = h'\<rparr>"
    by (simp add: Rect_def)
  with rect_arg_int_cases [OF t] rect_arg_int_cases [OF w] rect_arg_int_cases [OF h]
  show ?thesis by simp
qed

lemma Car_Inr:
  assumes "Car x y w h col = Inr c"
  shows "c = \<lparr>car_x = x, car_y = y, car_width = w, car_height = h, color = col,
      rect = \<lparr>rect_x = rect_arg_float (fsub x (float_of_int (w div 2))),
               rect_y = c_int (y - h div 2), rect_w = c_int w, rect_h = c_int h\<rparr>\<rparr>"
proof -
  from assms obtain r where r: "Rect (fsub x (float_of_int (w div 2))) (y - h div 2) w h = Inr r"
    by (cases "Rect (fsub x (float_of_int (w div 2))) (y - h div 2) w h")
       (simp_all add: Car_def)
  with assms have "c = \<lparr>car_x = x, car_y = y, car_width = w, car_height = h, color = col,
      rect = r\<rparr>"
    by (simp add: Car_def)
  with Rect_Inr [OF r] show ?thesis by simp
qed

lemma bbox_derived_Car:
  assumes "Car x y w h col = Inr c"
  shows "bbox_derived c" and "rect_x (rect c) = rect_arg_float (bbox_left c)"
  unfolding Car_Inr [OF assms] by (simp_all add: bbox_derived_def bbox_left_def)

lemma bbox_derived_car_update:
  assumes "car_update c dx dy = Inr c'" and "bbox_derived c"
  shows "bbox_derived c'" and "rect_x (rect c') = pg_round (bbox_left c')"
proof -
  note f = car_update_frame [OF assms(1)]
  from f(8) show x: "rect_x (rect c') = pg_round (bbox_left c')"
    by (simp only: bbox_left_def)
  from f(10) have i: "in_c_int (bbox_left c')" by (simp only: bbox_left_def)
  from f(11,12) have "c_int (car_y c' - car_height c' div 2) = car_y c' - car_height c' div 2"
    by (rule c_int_id)
  with f(9) have y: "rect_y (rect c') = c_int (car_y c' - car_height c' div 2)" by simp
  from assms(2) f(3,4,6,7) have "rect_w (rect c') = c_int (car_width c')"
    and "rect_h (rect c') = c_int (car_height c')"
    by (simp_all add: bbox_derived_def)
  with x i y show "bbox_derived c'" by (simp add: bbox_derived_def)
qed

lemma bbox_in_range:
  assumes "bbox_derived c" and "car_in_range c"
  shows "\<bar>of_int (rect_x (rect c)) - bbox_left c\<bar> < 1"
    and "rect_y (rect c) = car_y c - car_height c div 2"
    and "rect_w (rect c) = car_width c" and "rect_h (rect c) = car_height c"
proof -
  from assms(2) have i: "in_c_int (bbox_left c)" by (simp add: car_in_range_def)
  from assms(1) have "rect_x (rect c) = int_of_float (bbox_left c)
      \<or> rect_x (rect c) = pg_round (bbox_left c)"
    by (auto simp: bbox_derived_def rect_arg_float_in_range [OF i])
  then show "\<bar>of_int (rect_x (rect c)) - bbox_left c\<bar> < 1"
    using int_of_float_bounds [of "bbox_left c"] pg_round_bounds [OF in_c_int_abs [OF i]]
    by auto
  from assms show "rect_y (rect c) = car_y c - car_height c div 2"
    and "rect_w (rect c) = car_width c" and "rect_h (rect c) = car_height c"
    by (simp_all add: bbox_derived_def car_in_range_def c_int_id)
qed

lemma bbox_exact:
  assumes "bbox_derived c" and "car_in_range c" and "car_x c = of_int n"
    and "\<bar>n\<bar> < 2 ^ 52" and "\<bar>car_width c div 2\<bar> < 2 ^ 52"
  shows "rect_x (rect c) = n - car_width c div 2"
proof -
  let ?m = "car_width c div 2"
  have "\<bar>?m\<bar> < 2 ^ 53" using assms(5) by simp
  then have m: "float_of_int ?m = of_int ?m" by (rule float_of_int_exact)
  have "\<bar>n - ?m\<bar> < 2 ^ 53" using assms(4,5) by simp
  then have "fl (of_int (n - ?m)) = of_int (n - ?m)" by (rule fl_of_int)
  then have l: "bbox_left c = of_int (n - ?m)"
    by (simp add: bbox_left_def fsub_def m assms(3))
  from assms(2) have i: "in_c_int (of_int (n - ?m))"
    by (simp add: car_in_range_def l)
  from in_c_int_abs [OF i] have "(of_int \<bar>n - ?m\<bar> :: rat) \<le> of_int (2 ^ 31)" by simp
  then have "\<bar>n - ?m\<bar> \<le> 2 ^ 31" by (simp only: of_int_le_iff)
  then have p: "pg_round (of_int (n - ?m)) = n - ?m" by (rule pg_round_of_int)
  have t: "rect_arg_float (of_int (n - ?m)) = n - ?m"
    by (simp only: rect_arg_float_in_range [OF i] int_of_float_of_int)
  from assms(1) have "rect_x (rect c) = rect_arg_float (of_int (n - ?m))
      \<or> rect_x (rect c) = pg_round (of_int (n - ?m))"
    by (auto simp: bbox_derived_def l)
  with p t show ?thesis by auto
qed

lemma obstacle_pass_derived:
  "obstacle_pass g obs = Inr pass \<Longrightarrow> list_all bbox_derived obs \<Longrightarrow>
   list_all bbox_derived (map fst pass)"
proof (induction obs arbitrary: pass)
  case Nil
  then show ?case by simp
next
  case (Cons ob obs)
  from Cons.prems(2) have d: "bbox_derived ob" "list_all bbox_derived obs" by simp_all
  from Cons.prems(1) obtain m where m: "car_update ob 0 (obstacle_speed g) = Inr m"
    by (cases "car_update ob 0 (obstacle_speed g)") simp_all
  from bbox_derived_car_update(1) [OF m d(1)] have dm: "bbox_derived m" .
  have r: "list_all bbox_derived (map fst (map (\<lambda>c. (c, NotReached)) obs))"
    using d(2) by (simp add: comp_def)
  show ?case
  proof (cases "obstacle_pass g obs")
    case (Inl e)
    with Cons.prems(1) m dm r show ?thesis by (auto split: if_splits)
  next
    case (Inr ps)
    from Cons.IH [OF Inr d(2)] have "list_all bbox_derived (map fst ps)" .
    with Cons.prems(1) m dm r Inr show ?thesis by (auto split: if_splits)
  qed
qed

lemma cars_derived_update_car:
  assumes "update_car g keys = Inr g'" and "cars_derived g"
  shows "cars_derived g'"
proof -
  define dx where "dx = (if keys K_LEFT \<and> \<not> keys K_RIGHT then - car_speed g
                else if keys K_RIGHT \<and> \<not> keys K_LEFT then car_speed g
                else 0)"
  show ?thesis
  proof (cases "g' = g")
    case True
    with assms(2) show ?thesis by simp
  next
    case False
    with assms(1) obtain p where p: "car_update (player_car g) dx 0 = Inr p"
      and g': "g' = g\<lparr>player_car := p\<rparr>"
      by (cases "car_update (player_car g) dx 0")
         (auto simp: update_car_def dx_def [symmetric] Let_def split: if_splits)
    from assms(2) have "bbox_derived (player_car g)" by (simp add: cars_derived_def)
    from bbox_derived_car_update(1) [OF p this] assms(2) show ?thesis
      by (simp add: cars_derived_def g')
  qed
qed

lemma cars_derived_update_lane_markers:
  "cars_derived g \<Longrightarrow> cars_derived (update_lane_markers g)"
  by (simp add: cars_derived_def update_lane_markers_def)

lemma cars_derived_update_obstacles:
  assumes "update_obstacles g = Inr g'" and "cars_derived g"
  shows "cars_derived g'"
proof -
  from assms(2) have p: "bbox_derived (player_car g)" and o: "list_all bbox_derived (obstacles g)"
    by (simp_all add: cars_derived_def)
  from assms(1) obtain pass where q: "obstacle_pass g (obstacles g) = Inr pass"
    by (cases "obstacle_pass g (obstacles g)") (simp_all add: update_obstacles_def)
  note a = obstacle_pass_derived [OF q o]
  have f: "list_all bbox_derived (map fst (filter (\<lambda>(ob, b). b \<noteq> OffScreen) pass))"
    using a by (simp add: list_all_iff)
  from assms(1) q have "g' = (if Collided \<in> set (map snd pass)
       then do_game_over (g\<lparr>obstacles := map fst pass\<rparr>)
       else g\<lparr>obstacles := map fst (filter (\<lambda>(ob, b). b \<noteq> OffScreen) pass)\<rparr>)"
    by (simp add: update_obstacles_def)
  with p a f show ?thesis
    by (simp add: cars_derived_def do_game_over_def)
qed

lemma next_spawn_delay_Inr:
  "next_spawn_delay g = Inr (d, g') \<Longrightarrow> \<exists>r. g' = g\<lparr>rng := r\<rparr>"
  by (auto simp: next_spawn_delay_def randint_def split: if_splits)

lemma cars_derived_maybe_spawn:
  assumes "maybe_spawn_obstacle g = Inr g'" and "cars_derived g"
  shows "cars_derived g'"
proof (cases "spawn_timer g - 1 \<le> 0")
  case False
  with assms(1) have "g' = g\<lparr>spawn_timer := spawn_timer g - 1\<rparr>"
    by (simp add: maybe_spawn_obstacle_def Let_def)
  with assms(2) show ?thesis by (simp add: cars_derived_def)
next
  case True
  let ?g1 = "g\<lparr>spawn_timer := spawn_timer g - 1\<rparr>"
  from assms(1) True obtain lane r where l: "randrange (lane_count (config g)) (rng g) = Inr (lane, r)"
    by (cases "randrange (lane_count (config g)) (rng g)")
       (auto simp: maybe_spawn_obstacle_def Let_def)
  let ?car = "Car (lane_center ?g1 lane) (- 50)
      (int_of_float (fmul (lane_width g) (fl (3 / 5)))) 50 color_enemy_car"
  from assms(1) True l obtain ob where c: "?car = Inr ob"
    by (cases ?car) (auto simp: maybe_spawn_obstacle_def Let_def)
  let ?g2 = "g\<lparr>spawn_timer := spawn_timer g - 1, obstacles := obstacles g @ [ob], rng := r\<rparr>"
  from assms(1) True l c obtain d g3 where n: "next_spawn_delay ?g2 = Inr (d, g3)"
    and g': "g' = g3\<lparr>spawn_timer := d\<rparr>"
    by (cases "next_spawn_delay ?g2") (auto simp: maybe_spawn_obstacle_def Let_def)
  from next_spawn_delay_Inr [OF n] obtain r' where "g3 = ?g2\<lparr>rng := r'\<rparr>" by blast
  with g' have "player_car g' = player_car g" "obstacles g' = obstacles g @ [ob]"
    by simp_all
  with assms(2) bbox_derived_Car(1) [OF c] show ?thesis
    by (simp add: cars_derived_def)
qed

lemma cars_derived_update_score:
  assumes "update_score g = Inr g'" and "cars_derived g"
  shows "cars_derived g'"
proof (cases "fps (config g) = 0")
  case True
  with assms(1) show ?thesis by (simp add: update_score_def)
next
  case False
  with assms(1) have "g' = g\<lparr>score := fadd (score g) (fdiv 1 (float_of_int (fps (config g))))\<rparr>"
    by (simp add: update_score_def)
  with assms(2) show ?thesis by (simp add: cars_derived_def)
qed

lemma cars_derived_update:
  assumes "update g keys = Inr g'" and "cars_derived g"
  shows "cars_derived g'"
proof (cases "game_over g")
  case True
  with assms show ?thesis by (simp add: update_def)
next
  case False
  from assms(1) False obtain g1 where u1: "update_car g keys = Inr g1"
    by (cases "update_car g keys") (simp_all add: update_def)
  from assms(1) False u1 obtain g3 where u3: "update_obstacles (update_lane_markers g1) = Inr g3"
    by (cases "update_obstacles (update_lane_markers g1)") (simp_all add: update_def)
  from assms(1) False u1 u3 obtain g4 where u4: "maybe_spawn_obstacle g3 = Inr g4"
    and u5: "update_score g4 = Inr g'"
    by (cases "maybe_spawn_obstacle g3") (simp_all add: update_def)
  from u1 assms(2) have "cars_derived g1" by (rule cars_derived_update_car)
  then have "cars_derived (update_lane_markers g1)" by (rule cars_derived_update_lane_markers)
  with u3 have "cars_derived g3" by (rule cars_derived_update_obstacles)
  with u4 have "cars_derived g4" by (rule cars_derived_maybe_spawn)
  with u5 show ?thesis by (rule cars_derived_update_score)
qed

lemma cars_derived_reset:
  assumes "reset_game g = Inr g'" and "cars_derived g"
  shows "cars_derived g'"
proof -
  let ?p = "player_car g"
  let ?t = "height (config g) - 80 - car_height ?p div 2"
  note f = reset_game_Inr [OF assms(1)]
  from f have x: "in_c_int (fsub (lane_center g 1) (float_of_int (car_width ?p div 2)))"
    and y: "in_c_int (float_of_int ?t)"
    by (simp_all add: reset_fits_def)
  from y have "- (2 ^ 31) \<le> ?t \<and> ?t \<le> 2 ^ 31 - 1" by (simp only: in_c_int_float_of_int)
  then have t: "c_int ?t = ?t" by (simp add: c_int_id)
  from assms(2) have w: "rect_w (rect ?p) = c_int (car_width ?p)"
    "rect_h (rect ?p) = c_int (car_height ?p)"
    by (simp_all add: cars_derived_def bbox_derived_def)
  from assms(1) show ?thesis
    unfolding reset_game_eq [OF f]
    using x t w by (auto simp: cars_derived_def bbox_derived_def bbox_left_def)
qed

lemma cars_derived_handle_events:
  "handle_events g evs = Inr g' \<Longrightarrow> cars_derived g \<Longrightarrow> cars_derived g'"
proof (induction g evs rule: handle_events.induct)
  case (1 g)
  then show ?case by simp
next
  case (2 g evs)
  have "cars_derived (g\<lparr>running := False\<rparr>)" using 2(3) by (simp add: cars_derived_def)
  with 2 show ?case by simp
next
  case (3 g k evs)
  have q: "cars_derived (g\<lparr>running := False\<rparr>)" using 3(5) by (simp add: cars_derived_def)
  show ?case
  proof (cases "k = K_RETURN \<and> game_over g")
    case True
    with 3(4) obtain g1 where r: "reset_game g = Inr g1" and h: "handle_events g1 evs = Inr g'"
      by (cases "reset_game g") simp_all
    from r 3(5) have "cars_derived g1" by (rule cars_derived_reset)
    with 3(1) [OF True r h] show ?thesis .
  next
    case False
    with 3 q show ?thesis by (cases "k = K_ESCAPE") auto
  qed
next
  case (4 g evs)
  then show ?case by simp
qed

lemma init_lane_markers_cars:
  assumes "init_lane_markers g = Inr g'"
  shows "player_car g' = player_car g" and "obstacles g' = obstacles g"
proof -
  from assms obtain ms where "g' = g\<lparr>lane_markers := lane_markers g @ ms\<rparr>"
    by (cases "lane_marker_rows g [1 .. lane_count (config g) - 1]")
       (auto simp: init_lane_markers_def)
  then show "player_car g' = player_car g" and "obstacles g' = obstacles g" by simp_all
qed

lemma init_game_Inr:
  assumes "init_game cfg r = Inr g"
  shows "\<exists>g0 p d g2. lane_count cfg \<noteq> 0
      \<and> config g0 = cfg \<and> track_left g0 = border_x cfg
      \<and> track_right g0 = width cfg - border_x cfg \<and> road_scroll_speed g0 = 3
      \<and> obstacles g0 = [] \<and> lane_markers g0 = []
      \<and> Car (lane_center g0 1) (height cfg - 80)
           (int_of_float (fmul (lane_width g0) (fl (3 / 5)))) 40 color_player_car = Inr p
      \<and> next_spawn_delay (g0\<lparr>player_car := p\<rparr>) = Inr (d, g2)
      \<and> init_lane_markers (g2\<lparr>spawn_timer := d\<rparr>) = Inr g"
proof (cases "lane_count cfg = 0")
  case True
  with assms show ?thesis by (simp add: init_game_def)
next
  case False
  define lw where
    "lw = fl (of_int (width cfg - border_x cfg - border_x cfg) / of_int (lane_count cfg))"
  define g0 where "g0 = \<lparr>config = cfg, track_left = border_x cfg,
      track_right = width cfg - border_x cfg, lane_width = lw,
      car_speed = 5, road_scroll_speed = 3, obstacle_speed = 3,
      spawn_cooldown_range = (60, 120),
      player_car =
        \<lparr>car_x = 0, car_y = 0, car_width = 0, car_height = 0, color = color_player_car,
         rect = \<lparr>rect_x = 0, rect_y = 0, rect_w = 0, rect_h = 0\<rparr>\<rparr>,
      obstacles = [], lane_markers = [], score = 0, spawn_timer = 0,
      running = True, game_over = False, rng = r\<rparr>"
  let ?car = "Car (lane_center g0 1) (height cfg - 80)
           (int_of_float (fmul lw (fl (3 / 5)))) 40 color_player_car"
  have e: "init_game cfg r =
      (case ?car of
         Inl e \<Rightarrow> Inl e
       | Inr p \<Rightarrow>
           (case next_spawn_delay (g0\<lparr>player_car := p\<rparr>) of
              Inl e \<Rightarrow> Inl e
            | Inr (d, g2) \<Rightarrow> init_lane_markers (g2\<lparr>spawn_timer := d\<rparr>)))"
    by (simp only: init_game_def Let_def g0_def lw_def False if_False)
  from assms e obtain p where p: "?car = Inr p"
    by (cases ?car) simp_all
  from assms e p obtain d g2 where n: "next_spawn_delay (g0\<lparr>player_car := p\<rparr>) = Inr (d, g2)"
    by (cases "next_spawn_delay (g0\<lparr>player_car := p\<rparr>)") auto
  from assms e p n have i: "init_lane_markers (g2\<lparr>spawn_timer := d\<rparr>) = Inr g" by simp
  have "config g0 = cfg \<and> track_left g0 = border_x cfg
      \<and> track_right g0 = width cfg - border_x cfg \<and> road_scroll_speed g0 = 3
      \<and> obstacles g0 = [] \<and> lane_markers g0 = []"
    and "lane_width g0 = lw"
    by (simp_all add: g0_def)
  with False p n i show ?thesis by auto
qed

lemma cars_derived_init:
  assumes "init_game cfg r = Inr g"
  shows "cars_derived g"
proof -
  from init_game_Inr [OF assms] obtain g0 p d g2 where o: "obstacles g0 = []"
    and c: "Car (lane_center g0 1) (height cfg - 80)
           (int_of_float (fmul (lane_width g0) (fl (3 / 5)))) 40 color_player_car = Inr p"
    and n: "next_spawn_delay (g0\<lparr>player_car := p\<rparr>) = Inr (d, g2)"
    and i: "init_lane_markers (g2\<lparr>spawn_timer := d\<rparr>) = Inr g"
    by blast
  from next_spawn_delay_Inr [OF n] obtain r' where "g2 = g0\<lparr>player_car := p, rng := r'\<rparr>"
    by auto
  with init_lane_markers_cars [OF i] o have "player_car g = p" "obstacles g = []"
    by simp_all
  with bbox_derived_Car(1) [OF c] show ?thesis by (simp add: cars_derived_def)
qed

text \<open>
  C9, as the code has it.  The box of a car holds the top edge \<open>y - height // 2\<close> and the
  stored width and height, as long as these are within the int range.  Its left edge is
  \<open>x - width // 2\<close>, a float, made an integer: the constructor cuts the fraction off, and
  every \<open>update\<close> of the car and every reset round to the nearest integer.  So the left
  edge of the box is less than 1 away from \<open>x - width // 2\<close>, and equal to it when the
  centre is a whole number.  This holds for the player and every obstacle of a game from
  its initialisation on, through every frame.
\<close>

theorem bbox_invariant:
  "(\<forall>c. Car x y w h col = Inr c \<longrightarrow>
        bbox_derived c \<and> rect_x (rect c) = rect_arg_float (bbox_left c))
   \<and> (\<forall>c'. bbox_derived c \<and> car_update c dx dy = Inr c' \<longrightarrow>
        bbox_derived c' \<and> rect_x (rect c') = pg_round (bbox_left c'))
   \<and> (bbox_derived c \<and> car_in_range c \<longrightarrow>
        \<bar>of_int (rect_x (rect c)) - bbox_left c\<bar> < 1
        \<and> rect_y (rect c) = car_y c - car_height c div 2
        \<and> rect_w (rect c) = car_width c \<and> rect_h (rect c) = car_height c)
   \<and> (bbox_derived p \<and> car_in_range p \<and> car_x p = of_int n \<and> \<bar>n\<bar> < 2 ^ 52
        \<and> \<bar>car_width p div 2\<bar> < 2 ^ 52 \<longrightarrow>
        rect_x (rect p) = n - car_width p div 2)
   \<and> (\<forall>g0. init_game cfg r = Inr g0 \<longrightarrow> cars_derived g0)
   \<and> (cars_derived g \<longrightarrow>
        (\<forall>g'. update g keys = Inr g' \<longrightarrow> cars_derived g')
        \<and> (\<forall>g'. handle_events g evs = Inr g' \<longrightarrow> cars_derived g'))"
proof (intro conjI impI allI)
  fix c assume "Car x y w h col = Inr c"
  then show "bbox_derived c" and "rect_x (rect c) = rect_arg_float (bbox_left c)"
    by (rule bbox_derived_Car)+
next
  fix c' assume "bbox_derived c \<and> car_update c dx dy = Inr c'"
  then show "bbox_derived c'" and "rect_x (rect c') = pg_round (bbox_left c')"
    using bbox_derived_car_update [of c dx dy c'] by blast+
next
  assume "bbox_derived c \<and> car_in_range c"
  then show "\<bar>of_int (rect_x (rect c)) - bbox_left c\<bar> < 1"
    and "rect_y (rect c) = car_y c - car_height c div 2"
    and "rect_w (rect c) = car_width c" and "rect_h (rect c) = car_height c"
    using bbox_in_range [of c] by blast+
next
  assume "bbox_derived p \<and> car_in_range p \<and> car_x p = of_int n \<and> \<bar>n\<bar> < 2 ^ 52
        \<and> \<bar>car_width p div 2\<bar> < 2 ^ 52"
  then show "rect_x (rect p) = n - car_width p div 2"
    using bbox_exact [of p n] by blast
next
  fix g0 assume "init_game cfg r = Inr g0"
  then show "cars_derived g0" by (rule cars_derived_init)
next
  fix g' assume "cars_derived g" and "update g keys = Inr g'"
  then show "cars_derived g'" using cars_derived_update by blast
next
  fix g' assume "cars_derived g" and "handle_events g evs = Inr g'"
  then show "cars_derived g'" using cars_derived_handle_events by blast
qed

lemma crash_derived: "cars_derived crash_game"
  by (simp add: cars_derived_def bbox_derived_def bbox_left_def example_defs float_eval)

lemma left_obstacle_derived:
  "bbox_derived (left_obstacle 475)" "car_in_range (left_obstacle 475)"
  "bbox_left (left_obstacle 475) = 2803021643076949 / 35184372088832"
  by code_simp+

lemma crash_player:
  "bbox_derived (player_car crash_game)" "car_in_range (player_car crash_game)"
  "car_x (player_car crash_game) = of_int 200" "car_width (player_car crash_game) = 55"
  by (simp_all add: bbox_derived_def car_in_range_def bbox_left_def example_defs float_eval)

lemma start_lane0:
  "Car (lane_center start_game 0) (- 50) 55 50 color_enemy_car =
     Inr (new_obstacle start_game 0)"
proof -
  have w: "spawn_width start_game = 55"
    by (rule default_spawn_width) (simp add: start_game_def)
  from new_obstacle_Car(1) [of start_game 0] show ?thesis by (simp add: w)
qed

theorem bbox_invariant_witness:
  "cars_derived crash_game \<and> \<not> isl (update crash_game no_keys)
   \<and> cars_derived (projr (update crash_game no_keys))
   \<and> bbox_derived (new_obstacle start_game 0)
   \<and> bbox_derived (left_obstacle 475) \<and> car_in_range (left_obstacle 475)
   \<and> bbox_left (left_obstacle 475) = 2803021643076949 / 35184372088832
   \<and> rect_x (rect (left_obstacle 475)) = 80
   \<and> car_update (left_obstacle 475) 0 3 = Inr (left_obstacle 478)
   \<and> bbox_derived (left_obstacle 478)
   \<and> bbox_derived (player_car crash_game) \<and> car_in_range (player_car crash_game)
   \<and> rect_x (rect (player_car crash_game)) = 200 - 55 div 2"
proof -
  note t = bbox_invariant [of "lane_center start_game 0" "- 50" 55 50 color_enemy_car
      "left_obstacle 475" 0 3 "player_car crash_game" 200 _ _ crash_game no_keys]
  from crash_frame obtain g' where u: "update crash_game no_keys = Inr g'" by blast
  from t crash_derived u have a: "cars_derived g'" by blast
  from t start_lane0 have e: "bbox_derived (new_obstacle start_game 0)" by blast
  from t left_obstacle_derived(1) graze_moved have b: "bbox_derived (left_obstacle 478)"
    by blast
  have "\<bar>200 :: int\<bar> < 2 ^ 52" "\<bar>car_width (player_car crash_game) div 2\<bar> < 2 ^ 52"
    by (simp_all add: crash_player(4))
  with t crash_player have "rect_x (rect (player_car crash_game)) =
      200 - car_width (player_car crash_game) div 2"
    by blast
  then have c: "rect_x (rect (player_car crash_game)) = 200 - 55 div 2"
    by (simp only: crash_player(4))
  have d: "rect_x (rect (left_obstacle 475)) = 80" by (simp add: left_obstacle_def)
  from crash_derived u a e left_obstacle_derived d graze_moved b crash_player(1,2) c
  show ?thesis by simp
qed

text \<open>
  The claim as stated fails for the obstacles that the default game spawns in lane 0:
  the centre is the float \<open>106.66666666666666\<close> and the car is 55 wide, so
  \<open>x - width // 2\<close> is \<open>79.66666666666666\<close>.  The left edge of the box is 79 when the
  obstacle is built and 80 after its first step down, which leaves the centre \<open>x\<close> as it
  is.
\<close>

lemma lane0_obstacle:
  "new_obstacle start_game 0 =
     \<lparr>car_x = 3752999689475413 / 35184372088832, car_y = - 50, car_width = 55,
      car_height = 50, color = (0, 100, 255),
      rect = \<lparr>rect_x = 79, rect_y = - 75, rect_w = 55, rect_h = 50\<rparr>\<rparr>"
  by code_simp

lemma lane0_moved:
  "car_update
     \<lparr>car_x = 3752999689475413 / 35184372088832, car_y = - 50, car_width = 55,
      car_height = 50, color = (0, 100, 255),
      rect = \<lparr>rect_x = 79, rect_y = - 75, rect_w = 55, rect_h = 50\<rparr>\<rparr> 0 3 =
   Inr \<lparr>car_x = 3752999689475413 / 35184372088832, car_y = - 47, car_width = 55,
      car_height = 50, color = (0, 100, 255),
      rect = \<lparr>rect_x = 80, rect_y = - 72, rect_w = 55, rect_h = 50\<rparr>\<rparr>"
  by code_simp

theorem bbox_left_edge_truncated:
  "car_x (new_obstacle start_game 0) = 3752999689475413 / 35184372088832
   \<and> car_width (new_obstacle start_game 0) = 55
   \<and> rect_x (rect (new_obstacle start_game 0)) = 79
   \<and> of_int (rect_x (rect (new_obstacle start_game 0))) \<noteq>
       car_x (new_obstacle start_game 0) - of_int (car_width (new_obstacle start_game 0) div 2)
   \<and> \<not> isl (car_update (new_obstacle start_game 0) 0 3)
   \<and> car_x (projr (car_update (new_obstacle start_game 0) 0 3)) =
       car_x (new_obstacle start_game 0)
   \<and> rect_x (rect (projr (car_update (new_obstacle start_game 0) 0 3))) = 80"
  by (simp add: lane0_obstacle lane0_moved)


section \<open>Lane markers\<close>














section \<open>Where the code misses its own intent\<close>

lemma edge_ok: "frame_ok edge_game" "\<not> game_over edge_game"
proof -
  have "int_of_float (fmul (6708486944937301 / 70368744177664) (fl (3 / 5))) = 57"
    by code_simp
  then have "spawn_width edge_game = 57" by (simp add: spawn_width_def edge_game_def)
  then show "frame_ok edge_game"
    by (simp add: frame_ok_def car_fits_def example_defs float_eval)
  show "\<not> game_over edge_game" by (simp add: example_defs)
qed

lemma edge_move:
  "update_car edge_game hold_right =
     Inr (edge_game\<lparr>player_car :=
       \<lparr>car_x = 318, car_y = 520, car_width = 57, car_height = 40, color = (255, 0, 0),
        rect = \<lparr>rect_x = 290, rect_y = 500, rect_w = 57, rect_h = 40\<rparr>\<rparr>\<rparr>)"
  by (simp add: update_car_def car_update_def example_defs float_eval Let_def)

text \<open>
  C2 fails on the code.  The test in \<open>_update_car\<close> compares \<open>new_x - width // 2\<close> and
  \<open>new_x + width // 2\<close> with the track bounds, but the box of a car of odd width reaches
  one pixel further to the right, to \<open>new_x - width // 2 + width\<close>.  In
  \<open>RacingGame(GameConfig(width=406))\<close> the car is 57 wide and the track ends at 346; with the
  right key held, the 23rd frame accepts the move to \<open>x = 318\<close> (\<open>318 + 28 = 346\<close>) and the
  box then spans 290 to 347.
\<close>

theorem track_overrun:
  "player_within_track edge_game
   \<and> track_left edge_game = 60 \<and> track_right edge_game = 346
   \<and> car_x (player_car edge_game) = 313
   \<and> rect_right (rect (player_car edge_game)) = 342
   \<and> \<not> isl (update edge_game hold_right)
   \<and> car_x (player_car (projr (update edge_game hold_right))) = 318
   \<and> rect_x (rect (player_car (projr (update edge_game hold_right)))) = 290
   \<and> rect_right (rect (player_car (projr (update edge_game hold_right)))) = 347
   \<and> track_right (projr (update edge_game hold_right)) = 346
   \<and> \<not> player_within_track (projr (update edge_game hold_right))"
proof -
  note r = update_running [OF edge_ok, of hold_right]
  let ?g3 = "after_obstacle_update edge_game hold_right"
  from r(1) obtain g' where u: "update edge_game hold_right = Inr g'"
    and "player_car g' = player_car ?g3" and "track_left g' = track_left ?g3"
    and "track_right g' = track_right ?g3"
    by (cases "spawn_timer edge_game - 1 \<le> 0") (simp_all add: Let_def)
  with r(6,9,10) have "player_car g' = player_car (projr (update_car edge_game hold_right))"
    and "track_left g' = track_left edge_game" and "track_right g' = track_right edge_game"
    by simp_all
  with u show ?thesis
    by (simp add: edge_move player_within_track_def rect_right_def)
       (simp add: example_defs)
qed

lemma exit_ok: "frame_ok exit_game" "\<not> game_over exit_game" "\<not> spawn_timer exit_game - 1 \<le> 0"
proof -
  have "spawn_width exit_game = 55"
    by (rule default_spawn_width) (simp add: example_defs)
  then show "frame_ok exit_game"
    by (simp add: frame_ok_def car_fits_def example_defs float_eval)
  show "\<not> game_over exit_game" "\<not> spawn_timer exit_game - 1 \<le> 0"
    by (simp_all add: example_defs)
qed

lemma exit_obstacles:
  "obstacles (after_obstacle_update exit_game hold_right) =
     [middle_obstacle 337, middle_obstacle 73]"
  by (simp add: after_obstacle_update_def at_obstacle_update_def example_defs game_defs
      float_eval Let_def)

text \<open>
  C3 fails on the code.  \<open>_update_obstacles\<close> removes an obstacle as soon as its centre
  \<open>y\<close> is below the screen height, not its top edge: in the default game the first
  obstacle is removed in the frame that moves its centre to 601, when its top edge is at
  576 and 24 rows of it are still on the 600 pixel high screen.
\<close>

theorem early_removal:
  "obstacles exit_game = [middle_obstacle 598, middle_obstacle 334, middle_obstacle 70]
   \<and> height (config exit_game) = 600
   \<and> moved exit_game (middle_obstacle 598) = middle_obstacle 601
   \<and> car_y (middle_obstacle 601) - car_height (middle_obstacle 601) div 2 = 576
   \<and> rect_y (rect (middle_obstacle 601)) = 576
   \<and> \<not> isl (update exit_game hold_right)
   \<and> obstacles (projr (update exit_game hold_right)) =
       [middle_obstacle 337, middle_obstacle 73]"
proof -
  note r = update_running [OF exit_ok(1,2), of hold_right]
  from r(1) exit_ok(3) obtain g' where "update exit_game hold_right = Inr g'"
    and "obstacles g' = obstacles (after_obstacle_update exit_game hold_right)"
    by (simp add: Let_def)
  then show ?thesis
    by (simp add: exit_obstacles)
       (simp add: moved_def car_update_def example_defs float_eval)
qed


end
